theory Spec2Isabelle
  imports Complex_Main
begin

section \<open>Data model\<close>

text \<open>
  The slideshow compositor of the repository: the easing function (\<^verbatim>\<open>easing.ts\<close>), the
  transition renderer (\<^verbatim>\<open>transition-renderer.ts\<close>), the service that builds the timeline
  and renders single frames (\<^verbatim>\<open>image-to-video.ts\<close>), and the request schema of the API
  route.

  JavaScript numbers are modelled as \<^typ>\<open>real\<close>: sums, quotients and comparisons are exact,
  and there is no NaN and no infinity.  String-valued enumerations (\<^verbatim>\<open>TransitionType\<close>,
  \<^verbatim>\<open>EasingType\<close>) stay strings, so that a \<^verbatim>\<open>switch\<close> with a \<^verbatim>\<open>default\<close> branch keeps its
  default branch.  An optional field is an \<^typ>\<open>'a option\<close>.

  Where the source divides by zero (an image of width or height 0, a slide of duration 0)
  JavaScript yields an infinity or NaN and HOL yields 0.  No statement below rests on such a
  quotient: durations are assumed positive where a progress is computed, and the images of
  the examples have positive sizes.
\<close>

type_synonym TransitionType = string
type_synonym EasingType = string

text \<open>\<^verbatim>\<open>TransitionConfig\<close>; the fields carry the prefix \<open>tr_\<close> because \<^verbatim>\<open>duration\<close> is
  also a field of \<^verbatim>\<open>ImageSlide\<close>.\<close>

record TransitionConfig =
  tr_type :: TransitionType
  tr_duration :: real
  tr_easing :: EasingType

record Position =
  pos_x :: real
  pos_y :: real

record KenBurns =
  startScale :: real
  endScale :: real
  startPosition :: Position
  endPosition :: Position

record ImageSlide =
  src :: string
  duration :: real
  transition :: "TransitionConfig option"
  kenBurns :: "KenBurns option"

text \<open>A decoded image (\<^verbatim>\<open>HTMLImageElement | ImageBitmap\<close>): what the renderers read of it is
  its pixel size; \<open>img_src\<close> tells images apart.\<close>

record ImgSource =
  img_src :: string
  img_width :: real
  img_height :: real

text \<open>
  The drawing surface is written to, never read, by the code modelled here.  A renderer is
  therefore modelled by the sequence of calls and assignments it performs on the 2D context,
  in order.
\<close>

datatype canvas_op =
    ClearRect real real real real
  | SetFillStyle string
  | FillRect real real real real
  | Save
  | Restore
  | SetGlobalAlpha real
  | Translate real real
  | Scale real real
  | BeginPath
  | Rect real real real real
  | Clip
  | SetFilterBlur real
  | SetFilterNone
  | DrawImage ImgSource real real real real

section \<open>Easing\<close>

text \<open>\<^verbatim>\<open>applyEasing(t, easing)\<close>: clamp, then switch on the easing name.\<close>

definition applyEasing :: "real \<Rightarrow> EasingType \<Rightarrow> real" where
  "applyEasing t easing =
     (let clamped = max 0 (min 1 t) in
      if easing = ''linear'' then clamped
      else if easing = ''ease-in'' then clamped * clamped * clamped
      else if easing = ''ease-out'' then 1 - (1 - clamped) ^ 3
      else if easing = ''ease-in-out'' then
        (if clamped < 0.5 then 4 * clamped * clamped * clamped
         else 1 - (- 2 * clamped + 2) ^ 3 / 2)
      else clamped)"

section \<open>Transition renderer\<close>

text \<open>\<^verbatim>\<open>drawImage(ctx, img, width, height, opacity = 1)\<close>: nothing for a missing image,
  otherwise the image scaled to cover the canvas, centred.\<close>

definition drawImage :: "ImgSource option \<Rightarrow> real \<Rightarrow> real \<Rightarrow> real \<Rightarrow> canvas_op list" where
  "drawImage img width height opacity =
     (case img of
        None \<Rightarrow> []
      | Some im \<Rightarrow>
          (let imgW = img_width im;
               imgH = img_height im;
               scale = max (width / imgW) (height / imgH);
               scaledW = imgW * scale;
               scaledH = imgH * scale;
               x = (width - scaledW) / 2;
               y = (height - scaledH) / 2
           in [Save, SetGlobalAlpha opacity, DrawImage im x y scaledW scaledH, Restore]))"

definition renderFade ::
  "ImgSource option \<Rightarrow> ImgSource option \<Rightarrow> real \<Rightarrow> real \<Rightarrow> real \<Rightarrow> canvas_op list" where
  "renderFade fromImg toImg progress w h =
     drawImage fromImg w h (1 - progress) @ drawImage toImg w h progress"

definition renderDissolve ::
  "ImgSource option \<Rightarrow> ImgSource option \<Rightarrow> real \<Rightarrow> real \<Rightarrow> real \<Rightarrow> canvas_op list" where
  "renderDissolve fromImg toImg progress w h =
     (let fromAlpha = cos (progress * pi * 0.5);
          toAlpha = sin (progress * pi * 0.5)
      in drawImage fromImg w h fromAlpha @ drawImage toImg w h toAlpha)"

definition renderSlide ::
  "ImgSource option \<Rightarrow> ImgSource option \<Rightarrow> real \<Rightarrow> real \<Rightarrow> real \<Rightarrow> string \<Rightarrow> canvas_op list" where
  "renderSlide fromImg toImg progress w h direction =
     (let (fromX, fromY, toX, toY) =
            (if direction = ''left'' then (- progress * w, 0, (1 - progress) * w, 0)
             else if direction = ''right'' then (progress * w, 0, - (1 - progress) * w, 0)
             else if direction = ''up'' then (0, - progress * h, 0, (1 - progress) * h)
             else if direction = ''down'' then (0, progress * h, 0, - (1 - progress) * h)
             else (0, 0, 0, 0))
      in [Save, Translate fromX fromY] @ drawImage fromImg w h 1 @ [Restore]
         @ [Save, Translate toX toY] @ drawImage toImg w h 1 @ [Restore])"

definition renderWipe ::
  "ImgSource option \<Rightarrow> ImgSource option \<Rightarrow> real \<Rightarrow> real \<Rightarrow> real \<Rightarrow> string \<Rightarrow> canvas_op list" where
  "renderWipe fromImg toImg progress w h direction =
     drawImage fromImg w h 1
     @ [Save, BeginPath]
     @ (if direction = ''left'' then [Rect 0 0 (w * progress) h]
        else if direction = ''right'' then [Rect (w * (1 - progress)) 0 (w * progress) h]
        else if direction = ''up'' then [Rect 0 0 w (h * progress)]
        else if direction = ''down'' then [Rect 0 (h * (1 - progress)) w (h * progress)]
        else [])
     @ [Clip] @ drawImage toImg w h 1 @ [Restore]"

definition renderZoom ::
  "ImgSource option \<Rightarrow> ImgSource option \<Rightarrow> real \<Rightarrow> real \<Rightarrow> real \<Rightarrow> string \<Rightarrow> canvas_op list" where
  "renderZoom fromImg toImg progress w h direction =
     (if direction = ''in'' then
        drawImage fromImg w h (1 - progress)
        @ (let scale = progress
           in [Save, SetGlobalAlpha progress, Translate (w / 2) (h / 2), Scale scale scale,
               Translate (- w / 2) (- h / 2)]
              @ drawImage toImg w h 1 @ [Restore])
      else
        drawImage toImg w h progress
        @ (let scale = 1 + progress
           in [Save, SetGlobalAlpha (1 - progress), Translate (w / 2) (h / 2), Scale scale scale,
               Translate (- w / 2) (- h / 2)]
              @ drawImage fromImg w h 1 @ [Restore]))"

definition renderBlur ::
  "ImgSource option \<Rightarrow> ImgSource option \<Rightarrow> real \<Rightarrow> real \<Rightarrow> real \<Rightarrow> canvas_op list" where
  "renderBlur fromImg toImg progress w h =
     (let maxBlur = 20 in
      if progress < 0.5 then
        (let blurAmount = (progress / 0.5) * maxBlur
         in [Save, SetFilterBlur blurAmount] @ drawImage fromImg w h 1 @ [SetFilterNone, Restore])
      else
        (let blurAmount = ((1 - progress) / 0.5) * maxBlur
         in [Save, SetFilterBlur blurAmount] @ drawImage toImg w h 1 @ [SetFilterNone, Restore]))"

definition renderRotate ::
  "ImgSource option \<Rightarrow> ImgSource option \<Rightarrow> real \<Rightarrow> real \<Rightarrow> real \<Rightarrow> canvas_op list" where
  "renderRotate fromImg toImg progress w h =
     (if progress < 0.5 then
        (let angle = progress * pi; scale = cos angle
         in [Save, Translate (w / 2) (h / 2), Scale \<bar>scale\<bar> 1, Translate (- w / 2) (- h / 2)]
            @ drawImage fromImg w h (1 - progress) @ [Restore])
      else
        (let angle = (1 - progress) * pi; scale = cos angle
         in [Save, Translate (w / 2) (h / 2), Scale \<bar>scale\<bar> 1, Translate (- w / 2) (- h / 2)]
            @ drawImage toImg w h progress @ [Restore]))"

text \<open>\<^verbatim>\<open>v || 0.001\<close>: the right operand when the left one is zero.\<close>

definition orElse :: "real \<Rightarrow> real \<Rightarrow> real" where
  "orElse v d = (if v = 0 then d else v)"

definition renderFlip ::
  "ImgSource option \<Rightarrow> ImgSource option \<Rightarrow> real \<Rightarrow> real \<Rightarrow> real \<Rightarrow> canvas_op list" where
  "renderFlip fromImg toImg progress w h =
     (if progress < 0.5 then
        (let scaleY = 1 - progress * 2
         in [Save, Translate 0 (h / 2), Scale 1 (orElse \<bar>scaleY\<bar> 0.001), Translate 0 (- h / 2)]
            @ drawImage fromImg w h 1 @ [Restore])
      else
        (let scaleY = (progress - 0.5) * 2
         in [Save, Translate 0 (h / 2), Scale 1 (orElse scaleY 0.001), Translate 0 (- h / 2)]
            @ drawImage toImg w h 1 @ [Restore]))"

text \<open>\<^verbatim>\<open>renderTransitionFrame(ctx, from, to, progress, type, width, height)\<close>: clear, then
  switch on the effect name; the \<^verbatim>\<open>default\<close> branch is the last \<open>else\<close>.\<close>

definition renderTransitionFrame ::
  "ImgSource option \<Rightarrow> ImgSource option \<Rightarrow> real \<Rightarrow> TransitionType \<Rightarrow> real \<Rightarrow> real
     \<Rightarrow> canvas_op list" where
  "renderTransitionFrame fromImg toImg progress type width height =
     ClearRect 0 0 width height #
     (if type = ''none'' then drawImage (if progress < 0.5 then fromImg else toImg) width height 1
      else if type = ''fade'' then renderFade fromImg toImg progress width height
      else if type = ''dissolve'' then renderDissolve fromImg toImg progress width height
      else if type = ''slide-left'' then renderSlide fromImg toImg progress width height ''left''
      else if type = ''slide-right'' then renderSlide fromImg toImg progress width height ''right''
      else if type = ''slide-up'' then renderSlide fromImg toImg progress width height ''up''
      else if type = ''slide-down'' then renderSlide fromImg toImg progress width height ''down''
      else if type = ''wipe-left'' then renderWipe fromImg toImg progress width height ''left''
      else if type = ''wipe-right'' then renderWipe fromImg toImg progress width height ''right''
      else if type = ''wipe-up'' then renderWipe fromImg toImg progress width height ''up''
      else if type = ''wipe-down'' then renderWipe fromImg toImg progress width height ''down''
      else if type = ''zoom-in'' then renderZoom fromImg toImg progress width height ''in''
      else if type = ''zoom-out'' then renderZoom fromImg toImg progress width height ''out''
      else if type = ''blur'' then renderBlur fromImg toImg progress width height
      else if type = ''rotate'' then renderRotate fromImg toImg progress width height
      else if type = ''flip'' then renderFlip fromImg toImg progress width height
      else drawImage (if progress < 0.5 then fromImg else toImg) width height 1)"

section \<open>The image-to-video service\<close>

text \<open>The fields of \<^verbatim>\<open>ImageToVideoService\<close> that the renderers read.  The constructor, which
  creates the canvas and copies these fields from the request, is not modelled.\<close>

record ImageToVideoService =
  width :: real
  height :: real
  fps :: real
  backgroundColor :: string

text \<open>\<^verbatim>\<open>TransitionConfig & { startTime; endTime }\<close>, the type of \<^verbatim>\<open>transitionOut\<close>.\<close>

record TransitionOut = TransitionConfig +
  tr_startTime :: real
  tr_endTime :: real

text \<open>\<^verbatim>\<open>SlideTimeline\<close>; the field \<^verbatim>\<open>image\<close> is \<open>image'\<close> here.\<close>

record SlideTimeline =
  slide :: ImageSlide
  image' :: ImgSource
  startTime :: real
  endTime :: real
  transitionOut :: "TransitionOut option"

subsection \<open>\<^verbatim>\<open>buildTimeline\<close>\<close>

text \<open>
  One iteration of the loop of \<^verbatim>\<open>buildTimeline\<close>, for the slide \<open>sl\<close> = \<^verbatim>\<open>slides[i]\<close>, the image
  \<open>img\<close> = \<^verbatim>\<open>images[i]\<close> and \<open>notLast\<close> = \<^verbatim>\<open>i < slides.length - 1\<close>: the entry pushed and the new
  value of \<^verbatim>\<open>currentTime\<close>.
\<close>

definition buildTimeline_step :: "ImageSlide \<Rightarrow> ImgSource \<Rightarrow> bool \<Rightarrow> real \<Rightarrow> SlideTimeline \<times> real" where
  "buildTimeline_step sl img notLast currentTime =
     (let start = currentTime;
          end = start + duration sl;
          entry = \<lparr>slide = sl, image' = img, startTime = start, endTime = end, transitionOut = None\<rparr>
      in case transition sl of
           None \<Rightarrow> (entry, end)
         | Some tr \<Rightarrow>
             if notLast \<and> tr_type tr \<noteq> ''none'' then
               (let transDuration = tr_duration tr
                in (entry\<lparr>transitionOut :=
                        Some \<lparr>tr_type = tr_type tr, tr_duration = tr_duration tr,
                              tr_easing = tr_easing tr,
                              tr_startTime = end, tr_endTime = end + transDuration\<rparr>\<rparr>,
                    end + transDuration))
             else (entry, end))"

text \<open>The loop \<^verbatim>\<open>for (let i = 0; i < slides.length; i++)\<close> with its two variables
  \<^verbatim>\<open>currentTime\<close> and \<^verbatim>\<open>timeline\<close>.  Inside the loop \<open>length slides\<close> is at least 1, so the
  truncating subtraction on \<^typ>\<open>nat\<close> is the subtraction of the source.\<close>

function buildTimeline_loop ::
  "ImageSlide list \<Rightarrow> ImgSource list \<Rightarrow> nat \<Rightarrow> real \<Rightarrow> SlideTimeline list
     \<Rightarrow> SlideTimeline list \<times> real" where
  "buildTimeline_loop slides images i currentTime timeline =
     (if i < length slides then
        (case buildTimeline_step (slides ! i) (images ! i) (i < length slides - 1) currentTime of
           (entry, currentTime') \<Rightarrow>
             buildTimeline_loop slides images (i + 1) currentTime' (timeline @ [entry]))
      else (timeline, currentTime))"
  by pat_completeness auto
termination
  by (relation "measure (\<lambda>(slides, images, i, currentTime, timeline). length slides - i)") auto

text \<open>\<^verbatim>\<open>buildTimeline(slides, images)\<close> returns \<^verbatim>\<open>{ timeline, totalDuration }\<close>, here a pair.
  Its callers pass one image per slide.\<close>

definition buildTimeline :: "ImageSlide list \<Rightarrow> ImgSource list \<Rightarrow> SlideTimeline list \<times> real" where
  "buildTimeline slides images = buildTimeline_loop slides images 0 0 []"

subsection \<open>\<^verbatim>\<open>renderFrame\<close>\<close>

definition drawImageCover :: "ImageToVideoService \<Rightarrow> ImgSource \<Rightarrow> canvas_op list" where
  "drawImageCover svc img =
     (let imgW = img_width img;
          imgH = img_height img;
          scale = max (width svc / imgW) (height svc / imgH);
          scaledW = imgW * scale;
          scaledH = imgH * scale;
          x = (width svc - scaledW) / 2;
          y = (height svc - scaledH) / 2
      in [DrawImage img x y scaledW scaledH])"

text \<open>The second half of \<^verbatim>\<open>renderSlideWithKenBurns\<close>: the drawing for the clamped progress
  \<open>t\<close>.\<close>

definition kenBurnsFrame :: "ImageToVideoService \<Rightarrow> ImgSource \<Rightarrow> KenBurns \<Rightarrow> real \<Rightarrow> canvas_op list" where
  "kenBurnsFrame svc img kb t =
     (let scale = startScale kb + (endScale kb - startScale kb) * t;
          posX = pos_x (startPosition kb) + (pos_x (endPosition kb) - pos_x (startPosition kb)) * t;
          posY = pos_y (startPosition kb) + (pos_y (endPosition kb) - pos_y (startPosition kb)) * t
      in [Save, Translate (width svc / 2 + posX) (height svc / 2 + posY), Scale scale scale,
          Translate (- width svc / 2) (- height svc / 2)]
         @ drawImageCover svc img @ [Restore])"

definition renderSlideWithKenBurns :: "ImageToVideoService \<Rightarrow> SlideTimeline \<Rightarrow> real \<Rightarrow> canvas_op list" where
  "renderSlideWithKenBurns svc entry time =
     (case kenBurns (slide entry) of
        None \<Rightarrow> drawImageCover svc (image' entry)
      | Some kb \<Rightarrow>
          (let slideProgress = (time - startTime entry) / duration (slide entry);
               t = max 0 (min 1 slideProgress)
           in kenBurnsFrame svc (image' entry) kb t))"

text \<open>
  The places where \<^verbatim>\<open>renderFrame\<close> leaves its scan of the timeline, with what each one
  renders from:
  \<^item> \<open>Display entry\<close>: \<^verbatim>\<open>time\<close> is in the display interval of \<open>entry\<close>;
  \<^item> \<open>TransitionNoNext entry\<close>: \<^verbatim>\<open>time\<close> is in the transition interval of \<open>entry\<close> and
    \<^verbatim>\<open>timeline[i + 1]\<close> is undefined ("No next slide, just show current");
  \<^item> \<open>Transition entry tro nextEntry\<close>: \<^verbatim>\<open>time\<close> is in the transition interval \<open>tro\<close> of
    \<open>entry\<close>, and \<open>nextEntry\<close> is \<^verbatim>\<open>timeline[i + 1]\<close>;
  \<^item> \<open>ShowLast last\<close>: the loop ended and the timeline has a last entry;
  \<^item> \<open>Nothing\<close>: the loop ended and the timeline is empty.
\<close>

datatype frame_branch =
    Display SlideTimeline
  | TransitionNoNext SlideTimeline
  | Transition SlideTimeline TransitionOut SlideTimeline
  | ShowLast SlideTimeline
  | Nothing

function renderFrame_scan :: "real \<Rightarrow> SlideTimeline list \<Rightarrow> nat \<Rightarrow> frame_branch" where
  "renderFrame_scan time timeline i =
     (if i < length timeline then
        (let entry = timeline ! i in
         if time \<ge> startTime entry \<and> time < endTime entry then Display entry
         else
           (case transitionOut entry of
              None \<Rightarrow> renderFrame_scan time timeline (i + 1)
            | Some tro \<Rightarrow>
                if time \<ge> tr_startTime tro \<and> time < tr_endTime tro then
                  (if i + 1 < length timeline then Transition entry tro (timeline ! (i + 1))
                   else TransitionNoNext entry)
                else renderFrame_scan time timeline (i + 1)))
      else if timeline = [] then Nothing
      else ShowLast (last timeline))"
  by pat_completeness auto
termination
  by (relation "measure (\<lambda>(time, timeline, i). length timeline - i)") auto

text \<open>\<^verbatim>\<open>renderFrame(time, timeline)\<close>: fill the background, scan, render.\<close>

definition renderFrame :: "ImageToVideoService \<Rightarrow> real \<Rightarrow> SlideTimeline list \<Rightarrow> canvas_op list" where
  "renderFrame svc time timeline =
     [SetFillStyle (backgroundColor svc), FillRect 0 0 (width svc) (height svc)]
     @ (case renderFrame_scan time timeline 0 of
          Display entry \<Rightarrow> renderSlideWithKenBurns svc entry time
        | TransitionNoNext entry \<Rightarrow> renderSlideWithKenBurns svc entry time
        | Transition entry tro nextEntry \<Rightarrow>
            (let rawProgress = (time - tr_startTime tro) / (tr_endTime tro - tr_startTime tro);
                 progress = applyEasing rawProgress (tr_easing tro)
             in renderTransitionFrame (Some (image' entry)) (Some (image' nextEntry)) progress
                  (tr_type tro) (width svc) (height svc))
        | ShowLast lastEntry \<Rightarrow> drawImageCover svc (image' lastEntry)
        | Nothing \<Rightarrow> [])"

subsection \<open>\<^verbatim>\<open>generateFrames\<close> and \<^verbatim>\<open>createRenderLoop\<close>\<close>

text \<open>\<^verbatim>\<open>loadImage\<close> reads the network; it is the parameter \<open>load\<close>, with \<open>None\<close> where it throws.
  The only exception of the two entry points is the one \<^verbatim>\<open>loadImage\<close> throws.\<close>

datatype error = ImageLoadFailed string

fun loadImages :: "(string \<Rightarrow> ImgSource option) \<Rightarrow> ImageSlide list \<Rightarrow> error + ImgSource list" where
  "loadImages load [] = Inr []"
| "loadImages load (sl # rest) =
     (case load (src sl) of
        None \<Rightarrow> Inl (ImageLoadFailed (src sl))
      | Some img \<Rightarrow>
          (case loadImages load rest of
             Inl e \<Rightarrow> Inl e
           | Inr images \<Rightarrow> Inr (img # images)))"


text \<open>\<^verbatim>\<open>createRenderLoop\<close> returns \<^verbatim>\<open>{ renderFrame, totalDuration, totalFrames, canvas }\<close>.\<close>

definition createRenderLoop ::
  "ImageToVideoService \<Rightarrow> (string \<Rightarrow> ImgSource option) \<Rightarrow> ImageSlide list
     \<Rightarrow> error + ((real \<Rightarrow> canvas_op list) \<times> real \<times> int)" where
  "createRenderLoop svc load slides =
     (case loadImages load slides of
        Inl e \<Rightarrow> Inl e
      | Inr images \<Rightarrow>
          (case buildTimeline slides images of
             (timeline, totalDuration) \<Rightarrow>
               (let totalFrames = \<lceil>totalDuration * fps svc\<rceil>
                in Inr (\<lambda>frameIndex. renderFrame svc (frameIndex / fps svc) timeline,
                        totalDuration, totalFrames))))"

section \<open>Specification-side definitions and examples\<close>

text \<open>The entries that the loop of \<^verbatim>\<open>buildTimeline\<close> pushes from index \<open>i\<close> and cursor \<open>cur\<close> on, for the slides that are left, as a structural recursion; \<open>cursor_from\<close> is the cursor after them.  Both are shown below to be what the loop computes.\<close>

fun entries_from :: "ImgSource list \<Rightarrow> nat \<Rightarrow> real \<Rightarrow> ImageSlide list \<Rightarrow> SlideTimeline list" where
  "entries_from images i cur [] = []"
| "entries_from images i cur (sl # rest) =
     fst (buildTimeline_step sl (images ! i) (rest \<noteq> []) cur)
     # entries_from images (Suc i) (snd (buildTimeline_step sl (images ! i) (rest \<noteq> []) cur)) rest"

fun cursor_from :: "ImgSource list \<Rightarrow> nat \<Rightarrow> real \<Rightarrow> ImageSlide list \<Rightarrow> real" where
  "cursor_from images i cur [] = cur"
| "cursor_from images i cur (sl # rest) =
     cursor_from images (Suc i) (snd (buildTimeline_step sl (images ! i) (rest \<noteq> []) cur)) rest"

text \<open>The two intervals of a timeline entry: display, and transition if there is one.\<close>

definition entry_intervals :: "SlideTimeline \<Rightarrow> (real \<times> real) \<times> (real \<times> real) option" where
  "entry_intervals e =
     ((startTime e, endTime e),
      (case transitionOut e of None \<Rightarrow> None | Some tro \<Rightarrow> Some (tr_startTime tro, tr_endTime tro)))"

text \<open>The Timeline Builder in the words of the specification (4.4): a running cursor; the display interval of a slide is \<open>[cursor, cursor + duration)\<close> and the cursor advances to its end; if the slide is not the last one and has a transition whose kind is not \<^verbatim>\<open>none\<close>, the transition interval \<open>[cursor, cursor + transition duration)\<close> follows and the cursor advances again.  The result is the list of intervals and the final cursor.\<close>

fun spec_timeline :: "real \<Rightarrow> ImageSlide list \<Rightarrow> ((real \<times> real) \<times> (real \<times> real) option) list \<times> real" where
  "spec_timeline cursor [] = ([], cursor)"
| "spec_timeline cursor (sl # rest) =
     (let display = (cursor, cursor + duration sl);
          cursor1 = cursor + duration sl
      in case transition sl of
           None \<Rightarrow> (case spec_timeline cursor1 rest of (ivs, final) \<Rightarrow> ((display, None) # ivs, final))
         | Some tr \<Rightarrow>
             if rest \<noteq> [] \<and> tr_type tr \<noteq> ''none'' then
               (let trans = (cursor1, cursor1 + tr_duration tr);
                    cursor2 = cursor1 + tr_duration tr
                in case spec_timeline cursor2 rest of (ivs, final) \<Rightarrow> ((display, Some trans) # ivs, final))
             else (case spec_timeline cursor1 rest of (ivs, final) \<Rightarrow> ((display, None) # ivs, final)))"

text \<open>The example of the specification: three slides of 3 seconds, the first two with a fade of 1 second (with easing \<open>e\<close>), the third with none.\<close>

definition example_slides :: "EasingType \<Rightarrow> ImageSlide list" where
  "example_slides e =
     [\<lparr>src = ''a'', duration = 3,
       transition = Some \<lparr>tr_type = ''fade'', tr_duration = 1, tr_easing = e\<rparr>, kenBurns = None\<rparr>,
      \<lparr>src = ''b'', duration = 3,
       transition = Some \<lparr>tr_type = ''fade'', tr_duration = 1, tr_easing = e\<rparr>, kenBurns = None\<rparr>,
      \<lparr>src = ''c'', duration = 3, transition = None, kenBurns = None\<rparr>]"

text \<open>All intervals of a timeline in the order of the entries, the transition interval of an entry right after its display interval.\<close>

fun intervals_of :: "SlideTimeline list \<Rightarrow> (real \<times> real) list" where
  "intervals_of [] = []"
| "intervals_of (e # rest) =
     (startTime e, endTime e)
     # (case transitionOut e of None \<Rightarrow> [] | Some tro \<Rightarrow> [(tr_startTime tro, tr_endTime tro)])
     @ intervals_of rest"

text \<open>\<open>chain a ivs b\<close>: the intervals are non-empty, the first starts at \<open>a\<close>, each one starts where the one before ends, and the last ends at \<open>b\<close>.\<close>

fun chain :: "real \<Rightarrow> (real \<times> real) list \<Rightarrow> real \<Rightarrow> bool" where
  "chain a [] b = (a = b)"
| "chain a (iv # rest) b = (fst iv = a \<and> fst iv < snd iv \<and> chain (snd iv) rest b)"

text \<open>The same for the entries of a timeline; an entry with a transition is not the last one.\<close>

fun contiguous :: "real \<Rightarrow> SlideTimeline list \<Rightarrow> real \<Rightarrow> bool" where
  "contiguous a [] b = (a = b)"
| "contiguous a (e # rest) b =
     (startTime e = a \<and> a < endTime e \<and>
      (case transitionOut e of
         None \<Rightarrow> contiguous (endTime e) rest b
       | Some tro \<Rightarrow>
           rest \<noteq> [] \<and> tr_startTime tro = endTime e \<and> endTime e < tr_endTime tro \<and>
           contiguous (tr_endTime tro) rest b))"

text \<open>The scan of \<^verbatim>\<open>renderFrame\<close> over the entries that are left, as a structural recursion; \<open>fb\<close> is what the function does after the loop.\<close>

fun scan_list :: "real \<Rightarrow> frame_branch \<Rightarrow> SlideTimeline list \<Rightarrow> frame_branch" where
  "scan_list time fb [] = fb"
| "scan_list time fb (entry # rest) =
     (if time \<ge> startTime entry \<and> time < endTime entry then Display entry
      else
        (case transitionOut entry of
           None \<Rightarrow> scan_list time fb rest
         | Some tro \<Rightarrow>
             if time \<ge> tr_startTime tro \<and> time < tr_endTime tro then
               (case rest of [] \<Rightarrow> TransitionNoNext entry | nextEntry # _ \<Rightarrow> Transition entry tro nextEntry)
             else scan_list time fb rest))"

text \<open>A service, an image loader and three images for the examples.\<close>

definition example_svc :: ImageToVideoService where
  "example_svc = \<lparr>width = 1920, height = 1080, fps = 30, backgroundColor = ''#000000''\<rparr>"

definition example_load :: "string \<Rightarrow> ImgSource option" where
  "example_load s = Some \<lparr>img_src = s, img_width = 1920, img_height = 1080\<rparr>"

definition example_images :: "ImgSource list" where
  "example_images =
     [\<lparr>img_src = ''a'', img_width = 1920, img_height = 1080\<rparr>,
      \<lparr>img_src = ''b'', img_width = 1920, img_height = 1080\<rparr>,
      \<lparr>img_src = ''c'', img_width = 1920, img_height = 1080\<rparr>]"


text \<open>The images that a sequence of canvas operations draws.\<close>

fun drawn_images :: "canvas_op list \<Rightarrow> ImgSource list" where
  "drawn_images [] = []"
| "drawn_images (DrawImage im x y w h # ops) = im # drawn_images ops"
| "drawn_images (_ # ops) = drawn_images ops"

text \<open>One slide of 3 seconds with a Ken Burns zoom from 1 to 1.2 (the defaults of the request schema).\<close>

definition kenBurns_slides :: "ImageSlide list" where
  "kenBurns_slides =
     [\<lparr>src = ''a'', duration = 3, transition = None,
       kenBurns = Some \<lparr>startScale = 1, endScale = 1.2,
                         startPosition = \<lparr>pos_x = 0, pos_y = 0\<rparr>,
                         endPosition = \<lparr>pos_x = 0, pos_y = 0\<rparr>\<rparr>\<rparr>]"

section \<open>The request schema of the API route\<close>












section \<open>The loops as structural recursions\<close>

declare buildTimeline_loop.simps [simp del]
declare renderFrame_scan.simps [simp del]

lemma buildTimeline_loop_struct:
  "i \<le> length slides \<Longrightarrow>
   buildTimeline_loop slides images i cur acc =
     (acc @ entries_from images i cur (drop i slides), cursor_from images i cur (drop i slides))"
proof (induction slides images i cur acc rule: buildTimeline_loop.induct)
  case (1 slides images i cur acc)
  show ?case
  proof (cases "i < length slides")
    case True
    then have d: "drop i slides = slides ! i # drop (Suc i) slides"
      by (simp add: Cons_nth_drop_Suc)
    from True have nl: "(i < length slides - 1) = (drop (Suc i) slides \<noteq> [])"
      by auto
    obtain entry cur' where st: "buildTimeline_step (slides ! i) (images ! i) (i < length slides - 1) cur = (entry, cur')"
      by (cases "buildTimeline_step (slides ! i) (images ! i) (i < length slides - 1) cur")
    from True have "i + 1 \<le> length slides" by simp
    from "1.IH"[OF True st[symmetric] this]
    have "buildTimeline_loop slides images (i + 1) cur' (acc @ [entry]) =
          ((acc @ [entry]) @ entries_from images (Suc i) cur' (drop (Suc i) slides),
           cursor_from images (Suc i) cur' (drop (Suc i) slides))"
      by simp
    with True st d nl show ?thesis
      by (subst buildTimeline_loop.simps) simp
  next
    case False
    with "1.prems" have "i = length slides" by simp
    then show ?thesis
      by (subst buildTimeline_loop.simps) simp
  qed
qed

lemma buildTimeline_struct:
  "buildTimeline slides images = (entries_from images 0 0 slides, cursor_from images 0 0 slides)"
  by (simp add: buildTimeline_def buildTimeline_loop_struct)

lemma step_slide [simp]: "slide (fst (buildTimeline_step sl img nl cur)) = sl"
  by (simp add: buildTimeline_step_def Let_def split: option.split)

lemma step_image [simp]: "image' (fst (buildTimeline_step sl img nl cur)) = img"
  by (simp add: buildTimeline_step_def Let_def split: option.split)

lemma step_startTime [simp]: "startTime (fst (buildTimeline_step sl img nl cur)) = cur"
  by (simp add: buildTimeline_step_def Let_def split: option.split)

lemma step_endTime [simp]: "endTime (fst (buildTimeline_step sl img nl cur)) = cur + duration sl"
  by (simp add: buildTimeline_step_def Let_def split: option.split)

lemma step_transitionOut:
  "transitionOut (fst (buildTimeline_step sl img nl cur)) =
     (case transition sl of
        None \<Rightarrow> None
      | Some tr \<Rightarrow>
          if nl \<and> tr_type tr \<noteq> ''none'' then
            Some \<lparr>tr_type = tr_type tr, tr_duration = tr_duration tr, tr_easing = tr_easing tr,
                  tr_startTime = cur + duration sl,
                  tr_endTime = cur + duration sl + tr_duration tr\<rparr>
          else None)"
  by (simp add: buildTimeline_step_def Let_def split: option.split)

lemma step_cursor:
  "snd (buildTimeline_step sl img nl cur) =
     (case transition sl of
        None \<Rightarrow> cur + duration sl
      | Some tr \<Rightarrow>
          if nl \<and> tr_type tr \<noteq> ''none'' then cur + duration sl + tr_duration tr
          else cur + duration sl)"
  by (simp add: buildTimeline_step_def Let_def split: option.split)

lemma length_entries_from [simp]: "length (entries_from images i cur slides) = length slides"
  by (induction slides arbitrary: i cur) simp_all

lemma entries_from_spec:
  "map entry_intervals (entries_from images i cur slides) = fst (spec_timeline cur slides)"
  by (induction slides arbitrary: i cur)
     (simp_all add: entry_intervals_def step_transitionOut step_cursor Let_def
        split: option.split prod.split)

lemma cursor_from_spec:
  "cursor_from images i cur slides = snd (spec_timeline cur slides)"
  by (induction slides arbitrary: i cur)
     (simp_all add: step_cursor Let_def split: option.split prod.split)

lemma spec_timeline_last_transition:
  "spec_timeline cur (slides @ [sl\<lparr>transition := x\<rparr>]) = spec_timeline cur (slides @ [sl\<lparr>transition := y\<rparr>])"
  by (induction slides arbitrary: cur)
     (simp_all add: Let_def split: option.split prod.split)

lemma entries_from_eq_Nil [simp]: "(entries_from images i cur slides = []) = (slides = [])"
  by (cases slides) simp_all

lemma built_contiguous:
  "\<forall>sl\<in>set slides. 0 < duration sl \<Longrightarrow>
   \<forall>sl\<in>set slides. \<forall>tr. transition sl = Some tr \<longrightarrow> 0 < tr_duration tr \<Longrightarrow>
   contiguous cur (entries_from images i cur slides) (cursor_from images i cur slides)"
  by (induction slides arbitrary: i cur)
     (simp_all add: step_transitionOut step_cursor split: option.split)

lemma contiguous_chain: "contiguous a es b \<Longrightarrow> chain a (intervals_of es) b"
  by (induction es arbitrary: a) (auto split: option.splits)

lemma chain_le: "chain a ivs b \<Longrightarrow> a \<le> b"
  by (induction ivs arbitrary: a) fastforce+

lemma chain_hd: "chain a ivs b \<Longrightarrow> ivs \<noteq> [] \<Longrightarrow> fst (hd ivs) = a"
  by (cases ivs) simp_all

lemma chain_last: "chain a ivs b \<Longrightarrow> ivs \<noteq> [] \<Longrightarrow> snd (last ivs) = b"
  by (induction ivs arbitrary: a) (auto split: if_splits)

lemma chain_bounds:
  "chain a ivs b \<Longrightarrow> k < length ivs \<Longrightarrow> a \<le> fst (ivs ! k) \<and> fst (ivs ! k) < snd (ivs ! k) \<and> snd (ivs ! k) \<le> b"
proof (induction ivs arbitrary: a k)
  case Nil
  then show ?case by simp
next
  case (Cons iv rest)
  show ?case
  proof (cases k)
    case 0
    with Cons.prems chain_le[of "snd iv" rest b] show ?thesis by simp
  next
    case (Suc k')
    with Cons.prems Cons.IH[of "snd iv" k'] show ?thesis by simp
  qed
qed

lemma chain_adjacent:
  "chain a ivs b \<Longrightarrow> Suc k < length ivs \<Longrightarrow> snd (ivs ! k) = fst (ivs ! Suc k)"
proof (induction ivs arbitrary: a k)
  case Nil
  then show ?case by simp
next
  case (Cons iv rest)
  show ?case
  proof (cases k)
    case 0
    with Cons.prems show ?thesis by (cases rest) simp_all
  next
    case (Suc k')
    with Cons.prems Cons.IH[of "snd iv" k'] show ?thesis by simp
  qed
qed

lemma chain_order:
  "chain a ivs b \<Longrightarrow> j < k \<Longrightarrow> k < length ivs \<Longrightarrow> snd (ivs ! j) \<le> fst (ivs ! k)"
proof (induction ivs arbitrary: a j k)
  case Nil
  then show ?case by simp
next
  case (Cons iv rest)
  from Cons.prems obtain k' where k: "k = Suc k'" by (cases k) simp_all
  show ?case
  proof (cases j)
    case 0
    with Cons.prems k chain_bounds[of "snd iv" rest b k'] show ?thesis by simp
  next
    case (Suc j')
    with Cons.prems k Cons.IH[of "snd iv" j' k'] show ?thesis by simp
  qed
qed

lemma chain_cover:
  "chain a ivs b \<Longrightarrow> a \<le> t \<Longrightarrow> t < b \<Longrightarrow> \<exists>k<length ivs. fst (ivs ! k) \<le> t \<and> t < snd (ivs ! k)"
proof (induction ivs arbitrary: a)
  case Nil
  then show ?case by simp
next
  case (Cons iv rest)
  show ?case
  proof (cases "t < snd iv")
    case True
    with Cons.prems have "0 < length (iv # rest) \<and> fst ((iv # rest) ! 0) \<le> t \<and> t < snd ((iv # rest) ! 0)"
      by simp
    then show ?thesis by blast
  next
    case False
    with Cons.prems Cons.IH[of "snd iv"]
    obtain k where "k < length rest" "fst (rest ! k) \<le> t" "t < snd (rest ! k)" by auto
    then have "Suc k < length (iv # rest) \<and> fst ((iv # rest) ! Suc k) \<le> t \<and> t < snd ((iv # rest) ! Suc k)"
      by simp
    then show ?thesis by blast
  qed
qed

lemma chain_unique:
  assumes "chain a ivs b" "j < length ivs" "k < length ivs"
    "fst (ivs ! j) \<le> t" "t < snd (ivs ! j)" "fst (ivs ! k) \<le> t" "t < snd (ivs ! k)"
  shows "j = k"
proof (rule ccontr)
  assume "j \<noteq> k"
  then consider "j < k" | "k < j" by linarith
  then show False
  proof cases
    case 1
    with assms chain_order[of a ivs b j k] show False by simp
  next
    case 2
    with assms chain_order[of a ivs b k j] show False by simp
  qed
qed

lemma renderFrame_scan_struct:
  "i \<le> length timeline \<Longrightarrow>
   renderFrame_scan time timeline i =
     scan_list time (if timeline = [] then Nothing else ShowLast (last timeline)) (drop i timeline)"
proof (induction time timeline i rule: renderFrame_scan.induct)
  case (1 time timeline i)
  define fb where "fb = (if timeline = [] then Nothing else ShowLast (last timeline))"
  show ?case
  proof (cases "i < length timeline")
    case True
    define entry where "entry = timeline ! i"
    from True have d: "drop i timeline = entry # drop (Suc i) timeline"
      by (simp add: Cons_nth_drop_Suc entry_def)
    have nx: "(case drop (Suc i) timeline of [] \<Rightarrow> TransitionNoNext entry
                | nextEntry # _ \<Rightarrow> Transition entry tro nextEntry) =
              (if i + 1 < length timeline then Transition entry tro (timeline ! (i + 1))
               else TransitionNoNext entry)" for tro
      by (cases "Suc i < length timeline") (simp_all add: Cons_nth_drop_Suc[symmetric])
    from True have le: "i + 1 \<le> length timeline" by simp
    from True have unf: "renderFrame_scan time timeline i =
       (if time \<ge> startTime entry \<and> time < endTime entry then Display entry
         else
           (case transitionOut entry of
              None \<Rightarrow> renderFrame_scan time timeline (i + 1)
            | Some tro \<Rightarrow>
                if time \<ge> tr_startTime tro \<and> time < tr_endTime tro then
                  (if i + 1 < length timeline then Transition entry tro (timeline ! (i + 1))
                   else TransitionNoNext entry)
                else renderFrame_scan time timeline (i + 1)))"
      unfolding entry_def
      by (subst renderFrame_scan.simps) (simp only: if_True Let_def)
    have "renderFrame_scan time timeline i = scan_list time fb (entry # drop (Suc i) timeline)"
    proof (cases "time \<ge> startTime entry \<and> time < endTime entry")
      case True
      then show ?thesis
        by (simp add: unf)
    next
      case nd: False
      show ?thesis
      proof (cases "transitionOut entry")
        case None
        from "1.IH"(1)[OF True entry_def nd None le]
        have "renderFrame_scan time timeline (i + 1) = scan_list time fb (drop (Suc i) timeline)"
          by (simp add: fb_def)
        with nd None show ?thesis
          by (auto simp: unf)
      next
        case (Some tro)
        show ?thesis
        proof (cases "time \<ge> tr_startTime tro \<and> time < tr_endTime tro")
          case it: True
          with nd Some nx[of tro] show ?thesis
            by (auto simp: unf)
        next
          case nt: False
          from "1.IH"(2)[OF True entry_def nd Some nt le]
          have "renderFrame_scan time timeline (i + 1) = scan_list time fb (drop (Suc i) timeline)"
            by (simp add: fb_def)
          with nd Some nt show ?thesis
            by (auto simp: unf)
        qed
      qed
    qed
    then show ?thesis
      by (simp add: d fb_def)
  next
    case False
    with "1.prems" have "i = length timeline" by simp
    then show ?thesis
      by (subst renderFrame_scan.simps) simp
  qed
qed

lemma renderFrame_scan_0:
  "renderFrame_scan time timeline 0 =
     scan_list time (if timeline = [] then Nothing else ShowLast (last timeline)) timeline"
  by (simp add: renderFrame_scan_struct)

lemma contiguous_le: "contiguous a es b \<Longrightarrow> a \<le> b"
  by (induction es arbitrary: a) (fastforce split: option.splits)+

lemma contiguous_start_ge:
  "contiguous a es b \<Longrightarrow> i < length es \<Longrightarrow> a \<le> startTime (es ! i)"
proof (induction es arbitrary: a i)
  case Nil
  then show ?case by simp
next
  case (Cons e rest)
  show ?case
  proof (cases i)
    case 0
    with Cons.prems show ?thesis by simp
  next
    case (Suc i')
    show ?thesis
    proof (cases "transitionOut e")
      case None
      with Cons.prems Suc Cons.IH[of "endTime e" i'] show ?thesis by simp
    next
      case (Some tro)
      with Cons.prems Suc Cons.IH[of "tr_endTime tro" i'] show ?thesis by simp
    qed
  qed
qed

lemma contiguous_trans_after:
  "contiguous a es b \<Longrightarrow> i < length es \<Longrightarrow> transitionOut (es ! i) = Some tro \<Longrightarrow>
   startTime (es ! i) < endTime (es ! i) \<and> tr_startTime tro = endTime (es ! i) \<and>
   tr_startTime tro < tr_endTime tro"
proof (induction es arbitrary: a i)
  case Nil
  then show ?case by simp
next
  case (Cons e rest)
  show ?case
  proof (cases i)
    case 0
    with Cons.prems show ?thesis by simp
  next
    case (Suc i')
    show ?thesis
    proof (cases "transitionOut e")
      case None
      with Cons.prems Suc Cons.IH[of "endTime e" i'] show ?thesis by simp
    next
      case (Some tro')
      with Cons.prems Suc Cons.IH[of "tr_endTime tro'" i'] show ?thesis by simp
    qed
  qed
qed

lemma scan_list_past: "contiguous a es b \<Longrightarrow> b \<le> t \<Longrightarrow> scan_list t fb es = fb"
proof (induction es arbitrary: a)
  case Nil
  then show ?case by simp
next
  case (Cons e rest)
  show ?case
  proof (cases "transitionOut e")
    case None
    with Cons.prems contiguous_le[of "endTime e" rest b] Cons.IH[of "endTime e"] show ?thesis
      by simp
  next
    case (Some tro)
    with Cons.prems contiguous_le[of "tr_endTime tro" rest b] Cons.IH[of "tr_endTime tro"] show ?thesis
      by simp
  qed
qed

lemma scan_list_display:
  "contiguous a es b \<Longrightarrow> i < length es \<Longrightarrow> startTime (es ! i) \<le> t \<Longrightarrow> t < endTime (es ! i) \<Longrightarrow>
   scan_list t fb es = Display (es ! i)"
proof (induction es arbitrary: a i)
  case Nil
  then show ?case by simp
next
  case (Cons e rest)
  show ?case
  proof (cases i)
    case 0
    with Cons.prems show ?thesis by simp
  next
    case (Suc i')
    show ?thesis
    proof (cases "transitionOut e")
      case None
      with Cons.prems Suc Cons.IH[of "endTime e" i'] contiguous_start_ge[of "endTime e" rest b i']
      show ?thesis by simp
    next
      case (Some tro)
      with Cons.prems Suc Cons.IH[of "tr_endTime tro" i'] contiguous_start_ge[of "tr_endTime tro" rest b i']
      show ?thesis by simp
    qed
  qed
qed

lemma scan_list_transition:
  "contiguous a es b \<Longrightarrow> i < length es \<Longrightarrow> transitionOut (es ! i) = Some tro \<Longrightarrow>
   tr_startTime tro \<le> t \<Longrightarrow> t < tr_endTime tro \<Longrightarrow>
   Suc i < length es \<and> scan_list t fb es = Transition (es ! i) tro (es ! Suc i)"
proof (induction es arbitrary: a i)
  case Nil
  then show ?case by simp
next
  case (Cons e rest)
  show ?case
  proof (cases i)
    case 0
    with Cons.prems show ?thesis by (cases rest) simp_all
  next
    case (Suc i')
    from Cons.prems Suc have i': "i' < length rest" and tro: "transitionOut (rest ! i') = Some tro"
      by simp_all
    show ?thesis
    proof (cases "transitionOut e")
      case None
      with Cons.prems have c: "contiguous (endTime e) rest b" by simp
      from c i' have "endTime e \<le> startTime (rest ! i')" by (rule contiguous_start_ge)
      moreover have "startTime (rest ! i') < tr_startTime tro"
        using contiguous_trans_after[OF c i' tro] by simp
      ultimately show ?thesis
        using Cons.prems Suc None Cons.IH[OF c i' tro] by simp
    next
      case (Some tro')
      with Cons.prems have c: "contiguous (tr_endTime tro') rest b" by simp
      from c i' have "tr_endTime tro' \<le> startTime (rest ! i')" by (rule contiguous_start_ge)
      moreover have "startTime (rest ! i') < tr_startTime tro"
        using contiguous_trans_after[OF c i' tro] by simp
      ultimately show ?thesis
        using Cons.prems Suc Some Cons.IH[OF c i' tro] by simp
    qed
  qed
qed

lemma entries_from_nth:
  "i < length slides \<Longrightarrow>
   slide (entries_from images k cur slides ! i) = slides ! i \<and>
   image' (entries_from images k cur slides ! i) = images ! (k + i) \<and>
   endTime (entries_from images k cur slides ! i) =
     startTime (entries_from images k cur slides ! i) + duration (slides ! i)"
proof (induction slides arbitrary: i k cur)
  case Nil
  then show ?case by simp
next
  case (Cons sl rest)
  show ?case
  proof (cases i)
    case 0
    then show ?thesis by simp
  next
    case (Suc i')
    with Cons.prems Cons.IH[of i' "Suc k"] show ?thesis by simp
  qed
qed

lemma entries_from_transitionOut:
  "i < length slides \<Longrightarrow> transitionOut (entries_from images k cur slides ! i) = Some tro \<Longrightarrow>
   Suc i < length slides \<and>
   transition (slides ! i) =
     Some \<lparr>tr_type = tr_type tro, tr_duration = tr_duration tro, tr_easing = tr_easing tro\<rparr> \<and>
   tr_type tro \<noteq> ''none'' \<and>
   tr_startTime tro = endTime (entries_from images k cur slides ! i) \<and>
   tr_endTime tro = tr_startTime tro + tr_duration tro"
proof (induction slides arbitrary: i k cur)
  case Nil
  then show ?case by simp
next
  case (Cons sl rest)
  show ?case
  proof (cases i)
    case 0
    with Cons.prems show ?thesis
      by (auto simp: step_transitionOut split: option.splits if_splits)
  next
    case (Suc i')
    with Cons.prems Cons.IH[of i' "Suc k"] show ?thesis by simp
  qed
qed

lemma scan_list_cases:
  "scan_list t fb es = fb \<or>
   (\<exists>e\<in>set es. scan_list t fb es = Display e) \<or>
   (\<exists>e\<in>set es. transitionOut e \<noteq> None \<and> scan_list t fb es = TransitionNoNext e \<and> e = last es) \<or>
   (\<exists>i tro. Suc i < length es \<and> transitionOut (es ! i) = Some tro \<and>
       scan_list t fb es = Transition (es ! i) tro (es ! Suc i))"
proof (induction es)
  case Nil
  then show ?case by simp
next
  case (Cons e rest)
  have lift: ?case if skip: "scan_list t fb (e # rest) = scan_list t fb rest"
  proof -
    from Cons.IH consider (a) "scan_list t fb rest = fb"
      | (b) e' where "e' \<in> set rest" "scan_list t fb rest = Display e'"
      | (c) e' where "e' \<in> set rest" "transitionOut e' \<noteq> None"
          "scan_list t fb rest = TransitionNoNext e'" "e' = last rest"
      | (dd) i tro where "Suc i < length rest" "transitionOut (rest ! i) = Some tro"
          "scan_list t fb rest = Transition (rest ! i) tro (rest ! Suc i)"
      by blast
    then show ?thesis
    proof cases
      case a
      with skip show ?thesis by simp
    next
      case b
      with skip show ?thesis by auto
    next
      case c
      with skip have "e' \<in> set (e # rest) \<and> transitionOut e' \<noteq> None \<and>
          scan_list t fb (e # rest) = TransitionNoNext e' \<and> e' = last (e # rest)"
        by auto
      then show ?thesis by blast
    next
      case dd
      with skip have "Suc (Suc i) < length (e # rest) \<and>
         transitionOut ((e # rest) ! Suc i) = Some tro \<and>
         scan_list t fb (e # rest) = Transition ((e # rest) ! Suc i) tro ((e # rest) ! Suc (Suc i))"
        by simp
      then show ?thesis by blast
    qed
  qed
  show ?case
  proof (cases "startTime e \<le> t \<and> t < endTime e")
    case True
    then show ?thesis by simp
  next
    case nd: False
    show ?thesis
    proof (cases "transitionOut e")
      case None
      with nd have "scan_list t fb (e # rest) = scan_list t fb rest" by auto
      then show ?thesis by (rule lift)
    next
      case (Some tro)
      show ?thesis
      proof (cases "tr_startTime tro \<le> t \<and> t < tr_endTime tro")
        case False
        with nd Some have "scan_list t fb (e # rest) = scan_list t fb rest" by auto
        then show ?thesis by (rule lift)
      next
        case True
        show ?thesis
        proof (cases rest)
          case Nil
          with nd Some True show ?thesis by auto
        next
          case (Cons n rest')
          with nd Some True have "Suc 0 < length (e # rest) \<and>
             transitionOut ((e # rest) ! 0) = Some tro \<and>
             scan_list t fb (e # rest) = Transition ((e # rest) ! 0) tro ((e # rest) ! Suc 0)"
            by auto
          then show ?thesis by blast
        qed
      qed
    qed
  qed
qed

lemma entries_from_last_no_transition:
  "slides \<noteq> [] \<Longrightarrow> transitionOut (last (entries_from images k cur slides)) = None"
proof -
  assume ne: "slides \<noteq> []"
  let ?es = "entries_from images k cur slides"
  from ne have i: "length slides - 1 < length slides" by simp
  have "transitionOut (?es ! (length slides - 1)) = None"
  proof (cases "transitionOut (?es ! (length slides - 1))")
    case None
    then show ?thesis .
  next
    case (Some tro)
    from entries_from_transitionOut[OF i Some] ne show ?thesis by simp
  qed
  with ne show ?thesis by (simp add: last_conv_nth)
qed

lemma contiguous_next_start:
  "contiguous a es b \<Longrightarrow> Suc i < length es \<Longrightarrow>
   startTime (es ! Suc i) =
     (case transitionOut (es ! i) of None \<Rightarrow> endTime (es ! i) | Some tro \<Rightarrow> tr_endTime tro)"
proof (induction es arbitrary: a i)
  case Nil
  then show ?case by simp
next
  case (Cons e rest)
  show ?case
  proof (cases i)
    case 0
    with Cons.prems show ?thesis
      by (cases rest; cases "transitionOut e") simp_all
  next
    case (Suc i')
    show ?thesis
    proof (cases "transitionOut e")
      case None
      with Cons.prems Suc Cons.IH[of "endTime e" i'] show ?thesis by (simp split: option.split)
    next
      case (Some tro')
      with Cons.prems Suc Cons.IH[of "tr_endTime tro'" i'] show ?thesis by (simp split: option.split)
    qed
  qed
qed

lemma contiguous_display_order:
  "contiguous a es b \<Longrightarrow> j < i \<Longrightarrow> i < length es \<Longrightarrow> endTime (es ! j) \<le> startTime (es ! i)"
proof (induction es arbitrary: a i j)
  case Nil
  then show ?case by simp
next
  case (Cons e rest)
  from Cons.prems obtain i' where i: "i = Suc i'" by (cases i) simp_all
  show ?case
  proof (cases "transitionOut e")
    case None
    with Cons.prems have c: "contiguous (endTime e) rest b" by simp
    show ?thesis
    proof (cases j)
      case 0
      with Cons.prems i contiguous_start_ge[OF c, of i'] show ?thesis by simp
    next
      case (Suc j')
      with Cons.prems i Cons.IH[OF c, of j' i'] show ?thesis by simp
    qed
  next
    case (Some tro')
    with Cons.prems have c: "contiguous (tr_endTime tro') rest b"
      and lt: "endTime e < tr_endTime tro'" by simp_all
    show ?thesis
    proof (cases j)
      case 0
      with Cons.prems i lt contiguous_start_ge[OF c, of i'] show ?thesis by simp
    next
      case (Suc j')
      with Cons.prems i Cons.IH[OF c, of j' i'] show ?thesis by simp
    qed
  qed
qed

lemma contiguous_cover:
  "contiguous a es b \<Longrightarrow> a \<le> t \<Longrightarrow> t < b \<Longrightarrow>
   (\<exists>i<length es. startTime (es ! i) \<le> t \<and> t < endTime (es ! i)) \<or>
   (\<exists>i<length es. \<exists>tro. transitionOut (es ! i) = Some tro \<and>
       tr_startTime tro \<le> t \<and> t < tr_endTime tro)"
proof (induction es arbitrary: a)
  case Nil
  then show ?case by simp
next
  case (Cons e rest)
  have shift: ?case
    if "(\<exists>i<length rest. startTime (rest ! i) \<le> t \<and> t < endTime (rest ! i)) \<or>
        (\<exists>i<length rest. \<exists>tro. transitionOut (rest ! i) = Some tro \<and>
           tr_startTime tro \<le> t \<and> t < tr_endTime tro)"
  proof -
    from that consider (d) i where "i < length rest" "startTime (rest ! i) \<le> t" "t < endTime (rest ! i)"
      | (tr) i tro where "i < length rest" "transitionOut (rest ! i) = Some tro"
          "tr_startTime tro \<le> t" "t < tr_endTime tro"
      by blast
    then show ?thesis
    proof cases
      case d
      then have "Suc i < length (e # rest) \<and> startTime ((e # rest) ! Suc i) \<le> t \<and>
          t < endTime ((e # rest) ! Suc i)" by simp
      then show ?thesis by blast
    next
      case tr
      then have "Suc i < length (e # rest) \<and> transitionOut ((e # rest) ! Suc i) = Some tro \<and>
          tr_startTime tro \<le> t \<and> t < tr_endTime tro" by simp
      then show ?thesis by blast
    qed
  qed
  show ?case
  proof (cases "t < endTime e")
    case True
    with Cons.prems have "0 < length (e # rest) \<and> startTime ((e # rest) ! 0) \<le> t \<and>
        t < endTime ((e # rest) ! 0)" by simp
    then show ?thesis by blast
  next
    case False
    show ?thesis
    proof (cases "transitionOut e")
      case None
      with Cons.prems False Cons.IH[of "endTime e"] show ?thesis
        by (intro shift) simp
    next
      case (Some tro)
      show ?thesis
      proof (cases "t < tr_endTime tro")
        case True
        with Cons.prems False Some
        have "0 < length (e # rest) \<and> transitionOut ((e # rest) ! 0) = Some tro \<and>
            tr_startTime tro \<le> t \<and> t < tr_endTime tro" by simp
        then show ?thesis by blast
      next
        case nt: False
        with Cons.prems False Some Cons.IH[of "tr_endTime tro"] show ?thesis
          by (intro shift) simp
      qed
    qed
  qed
qed

lemma renderSlideWithKenBurns_in_display:
  assumes "startTime e \<le> t" "t < endTime e" "endTime e = startTime e + duration (slide e)"
  shows "renderSlideWithKenBurns svc e t =
     (case kenBurns (slide e) of
        None \<Rightarrow> drawImageCover svc (image' e)
      | Some kb \<Rightarrow> kenBurnsFrame svc (image' e) kb ((t - startTime e) / duration (slide e)))"
proof -
  from assms have d: "0 < duration (slide e)" by simp
  define p where "p = (t - startTime e) / duration (slide e)"
  from assms d have "0 \<le> p" "p < 1"
    by (simp_all add: p_def)
  then have "max 0 (min 1 p) = p" by simp
  then show ?thesis
    by (simp add: renderSlideWithKenBurns_def Let_def p_def split: option.split)
qed

lemma renderSlideWithKenBurns_past:
  assumes "endTime e \<le> t" "endTime e = startTime e + duration (slide e)" "0 < duration (slide e)"
  shows "renderSlideWithKenBurns svc e t =
     (case kenBurns (slide e) of
        None \<Rightarrow> drawImageCover svc (image' e)
      | Some kb \<Rightarrow> kenBurnsFrame svc (image' e) kb 1)"
proof -
  define p where "p = (t - startTime e) / duration (slide e)"
  from assms have "1 \<le> p"
    by (simp add: p_def)
  then have "max 0 (min 1 p) = 1" by simp
  then show ?thesis
    by (simp add: renderSlideWithKenBurns_def Let_def p_def split: option.split)
qed

lemma built_parts:
  assumes "buildTimeline slides images = (timeline, totalDuration)"
  shows "timeline = entries_from images 0 0 slides" "totalDuration = cursor_from images 0 0 slides"
  using assms by (simp_all add: buildTimeline_struct)


lemma renderFrame_Display:
  "renderFrame_scan time timeline 0 = Display entry \<Longrightarrow>
   renderFrame svc time timeline =
     [SetFillStyle (backgroundColor svc), FillRect 0 0 (width svc) (height svc)]
     @ renderSlideWithKenBurns svc entry time"
  by (simp add: renderFrame_def)

lemma renderFrame_Transition:
  "renderFrame_scan time timeline 0 = Transition entry tro nextEntry \<Longrightarrow>
   renderFrame svc time timeline =
     [SetFillStyle (backgroundColor svc), FillRect 0 0 (width svc) (height svc)]
     @ renderTransitionFrame (Some (image' entry)) (Some (image' nextEntry))
         (applyEasing ((time - tr_startTime tro) / (tr_endTime tro - tr_startTime tro)) (tr_easing tro))
         (tr_type tro) (width svc) (height svc)"
  by (simp add: renderFrame_def Let_def)

lemma renderFrame_ShowLast:
  "renderFrame_scan time timeline 0 = ShowLast entry \<Longrightarrow>
   renderFrame svc time timeline =
     [SetFillStyle (backgroundColor svc), FillRect 0 0 (width svc) (height svc)]
     @ drawImageCover svc (image' entry)"
  by (simp add: renderFrame_def)

lemma renderFrame_past_end:
  assumes pos: "\<forall>sl\<in>set slides. 0 < duration sl"
    and tpos: "\<forall>sl\<in>set slides. \<forall>tr. transition sl = Some tr \<longrightarrow> 0 < tr_duration tr"
    and ne: "slides \<noteq> []"
    and built: "buildTimeline slides images = (timeline, totalDuration)"
    and past: "totalDuration \<le> time"
  shows "renderFrame_scan time timeline 0 = ShowLast (last timeline)"
    and "renderFrame svc time timeline =
           [SetFillStyle (backgroundColor svc), FillRect 0 0 (width svc) (height svc)]
           @ drawImageCover svc (image' (last timeline))"
    and "kenBurns (last slides) = None \<Longrightarrow>
         renderFrame svc time timeline =
           [SetFillStyle (backgroundColor svc), FillRect 0 0 (width svc) (height svc)]
           @ renderSlideWithKenBurns svc (last timeline) time"
proof -
  note parts = built_parts[OF built]
  have c: "contiguous 0 timeline totalDuration"
    unfolding parts by (rule built_contiguous[OF pos tpos])
  from ne have tne: "timeline \<noteq> []" by (simp add: parts)
  from tne scan_list_past[OF c past]
  show sc: "renderFrame_scan time timeline 0 = ShowLast (last timeline)"
    by (simp add: renderFrame_scan_0)
  show rf: "renderFrame svc time timeline =
           [SetFillStyle (backgroundColor svc), FillRect 0 0 (width svc) (height svc)]
           @ drawImageCover svc (image' (last timeline))"
    by (rule renderFrame_ShowLast[OF sc])
  from ne have i: "length slides - 1 < length slides" by simp
  from ne tne entries_from_nth[OF i, of images 0 0]
  have "slide (last timeline) = last slides"
    by (simp add: last_conv_nth parts)
  then show "renderFrame svc time timeline =
           [SetFillStyle (backgroundColor svc), FillRect 0 0 (width svc) (height svc)]
           @ renderSlideWithKenBurns svc (last timeline) time"
    if "kenBurns (last slides) = None"
    using that rf by (simp add: renderSlideWithKenBurns_def)
qed




lemma drawn_images_drawImage [simp]:
  "drawn_images (drawImage img w h opacity) = (case img of None \<Rightarrow> [] | Some im \<Rightarrow> [im])"
  by (simp add: drawImage_def Let_def split: option.split)

section \<open>The claims\<close>



text \<open>Claim C2.  For a slide list in which every display duration and every transition duration is positive, the intervals of the built timeline, listed entry by entry with the transition interval of an entry right after its display interval, partition \<open>[0, totalDuration)\<close>: the first starts at 0 and the last ends at \<^verbatim>\<open>totalDuration\<close>; every interval is non-empty and lies in \<open>[0, totalDuration]\<close>; each starts where the one before ends (no gap, no overlap); starts and ends are strictly increasing; every time in \<open>[0, totalDuration)\<close> lies in exactly one of them; the transition interval of an entry starts at the end of its display interval, and the display interval of the next entry starts where the last interval of the entry ends.  (For the empty list there is no interval and \<^verbatim>\<open>totalDuration\<close> is 0.)\<close>

theorem C2_timeline_partition:
  assumes pos: "\<forall>sl\<in>set slides. 0 < duration sl"
    and tpos: "\<forall>sl\<in>set slides. \<forall>tr. transition sl = Some tr \<longrightarrow> 0 < tr_duration tr"
    and built: "buildTimeline slides images = (timeline, totalDuration)"
    and ivs: "ivs = intervals_of timeline"
  shows "(if slides = [] then ivs = [] \<and> totalDuration = 0
          else fst (hd ivs) = 0 \<and> snd (last ivs) = totalDuration) \<and>
         (\<forall>k<length ivs. fst (ivs ! k) < snd (ivs ! k)) \<and>
         (\<forall>k. Suc k < length ivs \<longrightarrow> snd (ivs ! k) = fst (ivs ! Suc k)) \<and>
         (\<forall>j k. j < k \<and> k < length ivs \<longrightarrow> fst (ivs ! j) < fst (ivs ! k) \<and> snd (ivs ! j) < snd (ivs ! k)) \<and>
         (\<forall>t. 0 \<le> t \<and> t < totalDuration \<longrightarrow>
            (\<exists>k<length ivs. fst (ivs ! k) \<le> t \<and> t < snd (ivs ! k) \<and>
               (\<forall>j<length ivs. fst (ivs ! j) \<le> t \<and> t < snd (ivs ! j) \<longrightarrow> j = k))) \<and>
         (\<forall>k<length ivs. 0 \<le> fst (ivs ! k) \<and> snd (ivs ! k) \<le> totalDuration) \<and>
         (\<forall>i<length timeline. \<forall>tro. transitionOut (timeline ! i) = Some tro \<longrightarrow>
            tr_startTime tro = endTime (timeline ! i)) \<and>
         (\<forall>i. Suc i < length timeline \<longrightarrow>
            startTime (timeline ! Suc i) =
              (case transitionOut (timeline ! i) of
                 None \<Rightarrow> endTime (timeline ! i) | Some tro \<Rightarrow> tr_endTime tro))"
proof -
  note parts = built_parts[OF built]
  have c: "contiguous 0 timeline totalDuration"
    unfolding parts by (rule built_contiguous[OF pos tpos])
  then have ch: "chain 0 ivs totalDuration"
    unfolding ivs by (rule contiguous_chain)
  have ends: "if slides = [] then ivs = [] \<and> totalDuration = 0
          else fst (hd ivs) = 0 \<and> snd (last ivs) = totalDuration"
  proof (cases "slides = []")
    case True
    then show ?thesis by (simp add: ivs parts)
  next
    case False
    then have "ivs \<noteq> []"
      by (cases slides) (simp_all add: ivs parts)
    with False chain_hd[OF ch] chain_last[OF ch] show ?thesis by simp
  qed
  have nonempty: "\<forall>k<length ivs. fst (ivs ! k) < snd (ivs ! k)"
    using chain_bounds[OF ch] by blast
  have bounds: "\<forall>k<length ivs. 0 \<le> fst (ivs ! k) \<and> snd (ivs ! k) \<le> totalDuration"
    using chain_bounds[OF ch] by blast
  have adjacent: "\<forall>k. Suc k < length ivs \<longrightarrow> snd (ivs ! k) = fst (ivs ! Suc k)"
    using chain_adjacent[OF ch] by blast
  have increasing: "\<forall>j k. j < k \<and> k < length ivs \<longrightarrow>
      fst (ivs ! j) < fst (ivs ! k) \<and> snd (ivs ! j) < snd (ivs ! k)"
  proof (intro allI impI)
    fix j k
    assume jk: "j < k \<and> k < length ivs"
    then have "snd (ivs ! j) \<le> fst (ivs ! k)"
      using chain_order[OF ch, of j k] by simp
    moreover from jk have "fst (ivs ! j) < snd (ivs ! j)" "fst (ivs ! k) < snd (ivs ! k)"
      using chain_bounds[OF ch, of j] chain_bounds[OF ch, of k] by simp_all
    ultimately show "fst (ivs ! j) < fst (ivs ! k) \<and> snd (ivs ! j) < snd (ivs ! k)"
      by simp
  qed
  have cover: "\<forall>t. 0 \<le> t \<and> t < totalDuration \<longrightarrow>
            (\<exists>k<length ivs. fst (ivs ! k) \<le> t \<and> t < snd (ivs ! k) \<and>
               (\<forall>j<length ivs. fst (ivs ! j) \<le> t \<and> t < snd (ivs ! j) \<longrightarrow> j = k))"
  proof (intro allI impI)
    fix t
    assume t: "0 \<le> t \<and> t < totalDuration"
    with chain_cover[OF ch, of t] obtain k
      where k: "k < length ivs" "fst (ivs ! k) \<le> t" "t < snd (ivs ! k)" by blast
    have "\<forall>j<length ivs. fst (ivs ! j) \<le> t \<and> t < snd (ivs ! j) \<longrightarrow> j = k"
      using chain_unique[OF ch _ k(1) _ _ k(2) k(3)] by blast
    with k show "\<exists>k<length ivs. fst (ivs ! k) \<le> t \<and> t < snd (ivs ! k) \<and>
               (\<forall>j<length ivs. fst (ivs ! j) \<le> t \<and> t < snd (ivs ! j) \<longrightarrow> j = k)"
      by blast
  qed
  have trans: "\<forall>i<length timeline. \<forall>tro. transitionOut (timeline ! i) = Some tro \<longrightarrow>
            tr_startTime tro = endTime (timeline ! i)"
    using contiguous_trans_after[OF c] by blast
  have nxt: "\<forall>i. Suc i < length timeline \<longrightarrow>
            startTime (timeline ! Suc i) =
              (case transitionOut (timeline ! i) of
                 None \<Rightarrow> endTime (timeline ! i) | Some tro \<Rightarrow> tr_endTime tro)"
    using contiguous_next_start[OF c] by blast
  from ends nonempty adjacent increasing cover bounds trans nxt show ?thesis
    by (intro conjI)
qed

text \<open>The theorem of C2 at the example of the specification: the five intervals from 0 to 11.\<close>

theorem C2_timeline_partition_witness:
  "intervals_of (fst (buildTimeline (example_slides ''linear'') example_images)) =
     [(0, 3), (3, 4), (4, 7), (7, 8), (8, 11)] \<and>
   fst (hd (intervals_of (fst (buildTimeline (example_slides ''linear'') example_images)))) = 0 \<and>
   snd (last (intervals_of (fst (buildTimeline (example_slides ''linear'') example_images)))) =
     snd (buildTimeline (example_slides ''linear'') example_images)"
proof -
  have ne: "example_slides ''linear'' \<noteq> []"
    by (simp add: example_slides_def)
  have pos: "\<forall>sl\<in>set (example_slides ''linear''). 0 < duration sl"
    by (simp add: example_slides_def)
  have tpos: "\<forall>sl\<in>set (example_slides ''linear''). \<forall>tr. transition sl = Some tr \<longrightarrow> 0 < tr_duration tr"
    by (simp add: example_slides_def)
  have ev: "intervals_of (fst (buildTimeline (example_slides ''linear'') example_images)) =
     [(0, 3), (3, 4), (4, 7), (7, 8), (8, 11)]"
    by (simp add: buildTimeline_struct example_slides_def step_transitionOut step_cursor)
  have b: "buildTimeline (example_slides ''linear'') example_images =
      (fst (buildTimeline (example_slides ''linear'') example_images),
       snd (buildTimeline (example_slides ''linear'') example_images))"
    by simp
  from C2_timeline_partition[OF pos tpos b refl] ne
  have "fst (hd (intervals_of (fst (buildTimeline (example_slides ''linear'') example_images)))) = 0 \<and>
    snd (last (intervals_of (fst (buildTimeline (example_slides ''linear'') example_images)))) =
      snd (buildTimeline (example_slides ''linear'') example_images)"
    by simp
  with ev show ?thesis by simp
qed




text \<open>Claim C4.  For a timeline built from a slide list with positive durations and a time in \<open>[0, totalDuration)\<close>: the time lies in the display interval or in the transition interval of some entry.  If it lies in the display interval of entry \<open>i\<close>, no earlier entry's display interval contains it, and \<^verbatim>\<open>renderFrame\<close> fills the background and renders the steady display of that entry: cover-fit without a Ken Burns spec, and with one the pan/zoom at progress \<open>(time - startTime) / duration\<close>.  If it lies in the transition interval of entry \<open>i\<close>, it lies in no display interval, entry \<open>i + 1\<close> exists, and \<^verbatim>\<open>renderFrame\<close> renders the transition of the slide's configuration from the image of entry \<open>i\<close> to the image of entry \<open>i + 1\<close>, at the raw progress \<open>(time - transition start) / transition duration\<close> passed through the entry's easing.\<close>

theorem C4_frame_resolver:
  assumes pos: "\<forall>sl\<in>set slides. 0 < duration sl"
    and tpos: "\<forall>sl\<in>set slides. \<forall>tr. transition sl = Some tr \<longrightarrow> 0 < tr_duration tr"
    and built: "buildTimeline slides images = (timeline, totalDuration)"
    and t0: "0 \<le> time" and t1: "time < totalDuration"
  shows "((\<exists>i<length timeline. startTime (timeline ! i) \<le> time \<and> time < endTime (timeline ! i)) \<or>
          (\<exists>i<length timeline. \<exists>tro. transitionOut (timeline ! i) = Some tro \<and>
              tr_startTime tro \<le> time \<and> time < tr_endTime tro)) \<and>
         (\<forall>i<length timeline. startTime (timeline ! i) \<le> time \<and> time < endTime (timeline ! i) \<longrightarrow>
            (\<forall>j<i. \<not> (startTime (timeline ! j) \<le> time \<and> time < endTime (timeline ! j))) \<and>
            slide (timeline ! i) = slides ! i \<and>
            renderFrame_scan time timeline 0 = Display (timeline ! i) \<and>
            renderFrame svc time timeline =
              [SetFillStyle (backgroundColor svc), FillRect 0 0 (width svc) (height svc)]
              @ (case kenBurns (slides ! i) of
                   None \<Rightarrow> drawImageCover svc (image' (timeline ! i))
                 | Some kb \<Rightarrow>
                     kenBurnsFrame svc (image' (timeline ! i)) kb
                       ((time - startTime (timeline ! i)) / duration (slides ! i)))) \<and>
         (\<forall>i<length timeline. \<forall>tro.
            transitionOut (timeline ! i) = Some tro \<and>
            tr_startTime tro \<le> time \<and> time < tr_endTime tro \<longrightarrow>
            (\<forall>j<length timeline. \<not> (startTime (timeline ! j) \<le> time \<and> time < endTime (timeline ! j))) \<and>
            Suc i < length timeline \<and>
            transition (slides ! i) =
              Some \<lparr>tr_type = tr_type tro, tr_duration = tr_duration tro, tr_easing = tr_easing tro\<rparr> \<and>
            renderFrame_scan time timeline 0 = Transition (timeline ! i) tro (timeline ! Suc i) \<and>
            renderFrame svc time timeline =
              [SetFillStyle (backgroundColor svc), FillRect 0 0 (width svc) (height svc)]
              @ renderTransitionFrame (Some (image' (timeline ! i))) (Some (image' (timeline ! Suc i)))
                  (applyEasing ((time - tr_startTime tro) / tr_duration tro) (tr_easing tro))
                  (tr_type tro) (width svc) (height svc))"
proof -
  note parts = built_parts[OF built]
  have len: "length timeline = length slides" by (simp add: parts)
  have c: "contiguous 0 timeline totalDuration"
    unfolding parts by (rule built_contiguous[OF pos tpos])
  define fb where "fb = (if timeline = [] then Nothing else ShowLast (last timeline))"
  have scan: "renderFrame_scan time timeline 0 = scan_list time fb timeline"
    by (simp add: renderFrame_scan_0 fb_def)
  have cover: "(\<exists>i<length timeline. startTime (timeline ! i) \<le> time \<and> time < endTime (timeline ! i)) \<or>
          (\<exists>i<length timeline. \<exists>tro. transitionOut (timeline ! i) = Some tro \<and>
              tr_startTime tro \<le> time \<and> time < tr_endTime tro)"
    by (rule contiguous_cover[OF c t0 t1])
  have disp: "\<forall>i<length timeline. startTime (timeline ! i) \<le> time \<and> time < endTime (timeline ! i) \<longrightarrow>
            (\<forall>j<i. \<not> (startTime (timeline ! j) \<le> time \<and> time < endTime (timeline ! j))) \<and>
            slide (timeline ! i) = slides ! i \<and>
            renderFrame_scan time timeline 0 = Display (timeline ! i) \<and>
            renderFrame svc time timeline =
              [SetFillStyle (backgroundColor svc), FillRect 0 0 (width svc) (height svc)]
              @ (case kenBurns (slides ! i) of
                   None \<Rightarrow> drawImageCover svc (image' (timeline ! i))
                 | Some kb \<Rightarrow>
                     kenBurnsFrame svc (image' (timeline ! i)) kb
                       ((time - startTime (timeline ! i)) / duration (slides ! i)))"
  proof (intro allI impI, elim conjE)
    fix i
    assume i: "i < length timeline" and a: "startTime (timeline ! i) \<le> time"
      and b: "time < endTime (timeline ! i)"
    from i len have i': "i < length slides" by simp
    from entries_from_nth[OF i', of images 0 0]
    have sl: "slide (timeline ! i) = slides ! i"
      and en: "endTime (timeline ! i) = startTime (timeline ! i) + duration (slide (timeline ! i))"
      by (simp_all add: parts)
    have first: "\<forall>j<i. \<not> (startTime (timeline ! j) \<le> time \<and> time < endTime (timeline ! j))"
    proof (intro allI impI)
      fix j
      assume "j < i"
      from contiguous_display_order[OF c this i] a
      show "\<not> (startTime (timeline ! j) \<le> time \<and> time < endTime (timeline ! j))"
        by simp
    qed
    have sc: "renderFrame_scan time timeline 0 = Display (timeline ! i)"
      unfolding scan by (rule scan_list_display[OF c i a b])
    have "renderFrame svc time timeline =
              [SetFillStyle (backgroundColor svc), FillRect 0 0 (width svc) (height svc)]
              @ renderSlideWithKenBurns svc (timeline ! i) time"
      by (rule renderFrame_Display[OF sc])
    also have "renderSlideWithKenBurns svc (timeline ! i) time =
           (case kenBurns (slides ! i) of
                   None \<Rightarrow> drawImageCover svc (image' (timeline ! i))
                 | Some kb \<Rightarrow>
                     kenBurnsFrame svc (image' (timeline ! i)) kb
                       ((time - startTime (timeline ! i)) / duration (slides ! i)))"
      using renderSlideWithKenBurns_in_display[OF a b en, of svc] unfolding sl .
    finally have rf: "renderFrame svc time timeline =
              [SetFillStyle (backgroundColor svc), FillRect 0 0 (width svc) (height svc)]
              @ (case kenBurns (slides ! i) of
                   None \<Rightarrow> drawImageCover svc (image' (timeline ! i))
                 | Some kb \<Rightarrow>
                     kenBurnsFrame svc (image' (timeline ! i)) kb
                       ((time - startTime (timeline ! i)) / duration (slides ! i)))" .
    from first sl sc rf
    show "(\<forall>j<i. \<not> (startTime (timeline ! j) \<le> time \<and> time < endTime (timeline ! j))) \<and>
            slide (timeline ! i) = slides ! i \<and>
            renderFrame_scan time timeline 0 = Display (timeline ! i) \<and>
            renderFrame svc time timeline =
              [SetFillStyle (backgroundColor svc), FillRect 0 0 (width svc) (height svc)]
              @ (case kenBurns (slides ! i) of
                   None \<Rightarrow> drawImageCover svc (image' (timeline ! i))
                 | Some kb \<Rightarrow>
                     kenBurnsFrame svc (image' (timeline ! i)) kb
                       ((time - startTime (timeline ! i)) / duration (slides ! i)))"
      by (intro conjI)
  qed
  have trans: "\<forall>i<length timeline. \<forall>tro.
            transitionOut (timeline ! i) = Some tro \<and>
            tr_startTime tro \<le> time \<and> time < tr_endTime tro \<longrightarrow>
            (\<forall>j<length timeline. \<not> (startTime (timeline ! j) \<le> time \<and> time < endTime (timeline ! j))) \<and>
            Suc i < length timeline \<and>
            transition (slides ! i) =
              Some \<lparr>tr_type = tr_type tro, tr_duration = tr_duration tro, tr_easing = tr_easing tro\<rparr> \<and>
            renderFrame_scan time timeline 0 = Transition (timeline ! i) tro (timeline ! Suc i) \<and>
            renderFrame svc time timeline =
              [SetFillStyle (backgroundColor svc), FillRect 0 0 (width svc) (height svc)]
              @ renderTransitionFrame (Some (image' (timeline ! i))) (Some (image' (timeline ! Suc i)))
                  (applyEasing ((time - tr_startTime tro) / tr_duration tro) (tr_easing tro))
                  (tr_type tro) (width svc) (height svc)"
  proof (intro allI impI, elim conjE)
    fix i tro
    assume i: "i < length timeline" and tr: "transitionOut (timeline ! i) = Some tro"
      and a: "tr_startTime tro \<le> time" and b: "time < tr_endTime tro"
    from i len have i': "i < length slides" by simp
    from tr have tr': "transitionOut (entries_from images 0 0 slides ! i) = Some tro"
      by (simp add: parts)
    from entries_from_transitionOut[OF i' tr']
    have cfg: "transition (slides ! i) =
              Some \<lparr>tr_type = tr_type tro, tr_duration = tr_duration tro, tr_easing = tr_easing tro\<rparr>"
      and dur: "tr_endTime tro - tr_startTime tro = tr_duration tro"
      by simp_all
    from scan_list_transition[OF c i tr a b, of fb]
    have nx: "Suc i < length timeline"
      and sc: "renderFrame_scan time timeline 0 = Transition (timeline ! i) tro (timeline ! Suc i)"
      by (simp_all add: scan)
    have nodisp: "\<forall>j<length timeline. \<not> (startTime (timeline ! j) \<le> time \<and> time < endTime (timeline ! j))"
    proof (intro allI impI notI)
      fix j
      assume j: "j < length timeline"
        and "startTime (timeline ! j) \<le> time \<and> time < endTime (timeline ! j)"
      then have "scan_list time fb timeline = Display (timeline ! j)"
        using scan_list_display[OF c j, of time fb] by simp
      with sc scan show False by simp
    qed
    have rf: "renderFrame svc time timeline =
              [SetFillStyle (backgroundColor svc), FillRect 0 0 (width svc) (height svc)]
              @ renderTransitionFrame (Some (image' (timeline ! i))) (Some (image' (timeline ! Suc i)))
                  (applyEasing ((time - tr_startTime tro) / tr_duration tro) (tr_easing tro))
                  (tr_type tro) (width svc) (height svc)"
      using renderFrame_Transition[OF sc, of svc] unfolding dur .
    from nodisp nx cfg sc rf
    show "(\<forall>j<length timeline. \<not> (startTime (timeline ! j) \<le> time \<and> time < endTime (timeline ! j))) \<and>
            Suc i < length timeline \<and>
            transition (slides ! i) =
              Some \<lparr>tr_type = tr_type tro, tr_duration = tr_duration tro, tr_easing = tr_easing tro\<rparr> \<and>
            renderFrame_scan time timeline 0 = Transition (timeline ! i) tro (timeline ! Suc i) \<and>
            renderFrame svc time timeline =
              [SetFillStyle (backgroundColor svc), FillRect 0 0 (width svc) (height svc)]
              @ renderTransitionFrame (Some (image' (timeline ! i))) (Some (image' (timeline ! Suc i)))
                  (applyEasing ((time - tr_startTime tro) / tr_duration tro) (tr_easing tro))
                  (tr_type tro) (width svc) (height svc)"
      by (intro conjI)
  qed
  from cover disp trans show ?thesis
    by (intro conjI)
qed

text \<open>The theorem of C4 at the example of the specification: at 3.5 s the frame is the fade from slide 0 to slide 1 over \<open>[3, 4)\<close> at raw progress 0.5, and at 1 s it is the display of slide 0.\<close>

theorem C4_frame_resolver_witness:
  "renderFrame_scan 3.5 (fst (buildTimeline (example_slides ''ease-in-out'') example_images)) 0 =
     Transition (fst (buildTimeline (example_slides ''ease-in-out'') example_images) ! 0)
       \<lparr>tr_type = ''fade'', tr_duration = 1, tr_easing = ''ease-in-out'',
         tr_startTime = 3, tr_endTime = 4\<rparr>
       (fst (buildTimeline (example_slides ''ease-in-out'') example_images) ! Suc 0) \<and>
   renderFrame example_svc 3.5 (fst (buildTimeline (example_slides ''ease-in-out'') example_images)) =
     [SetFillStyle ''#000000'', FillRect 0 0 1920 1080]
     @ renderTransitionFrame (Some (example_images ! 0)) (Some (example_images ! 1))
         (applyEasing 0.5 ''ease-in-out'') ''fade'' 1920 1080 \<and>
   renderFrame_scan 1 (fst (buildTimeline (example_slides ''ease-in-out'') example_images)) 0 =
     Display (fst (buildTimeline (example_slides ''ease-in-out'') example_images) ! 0)"
proof -
  let ?slides = "example_slides ''ease-in-out''"
  let ?tl = "fst (buildTimeline ?slides example_images)"
  let ?tro = "\<lparr>tr_type = ''fade'', tr_duration = 1, tr_easing = ''ease-in-out'',
         tr_startTime = 3, tr_endTime = 4\<rparr>"
  have pos: "\<forall>sl\<in>set ?slides. 0 < duration sl"
    by (simp add: example_slides_def)
  have tpos: "\<forall>sl\<in>set ?slides. \<forall>tr. transition sl = Some tr \<longrightarrow> 0 < tr_duration tr"
    by (simp add: example_slides_def)
  have b: "buildTimeline ?slides example_images = (?tl, snd (buildTimeline ?slides example_images))"
    by simp
  have total: "snd (buildTimeline ?slides example_images) = 11"
    by (simp add: buildTimeline_struct example_slides_def step_cursor)
  have len: "0 < length ?tl"
    by (simp add: buildTimeline_struct example_slides_def)
  have tro: "transitionOut (?tl ! 0) = Some ?tro \<and> tr_startTime ?tro \<le> 3.5 \<and> 3.5 < tr_endTime ?tro"
    by (simp add: buildTimeline_struct example_slides_def step_transitionOut)
  have dsp: "startTime (?tl ! 0) \<le> 1 \<and> 1 < endTime (?tl ! 0)"
    by (simp add: buildTimeline_struct example_slides_def)
  have img: "image' (?tl ! 0) = example_images ! 0" "image' (?tl ! Suc 0) = example_images ! 1"
    by (simp_all add: buildTimeline_struct example_slides_def)
  have th1: "0 \<le> (3.5::real)" "(3.5::real) < snd (buildTimeline ?slides example_images)"
    by (simp_all add: total)
  have th2: "0 \<le> (1::real)" "(1::real) < snd (buildTimeline ?slides example_images)"
    by (simp_all add: total)
  note at_trans = C4_frame_resolver[OF pos tpos b th1, of example_svc,
      THEN conjunct2, THEN conjunct2, rule_format, OF len tro]
  note at_disp = C4_frame_resolver[OF pos tpos b th2, of example_svc,
      THEN conjunct2, THEN conjunct1, rule_format, OF len dsp]
  from at_trans have sc: "renderFrame_scan 3.5 ?tl 0 = Transition (?tl ! 0) ?tro (?tl ! Suc 0)"
    by (elim conjE)
  from at_trans have "renderFrame example_svc 3.5 ?tl =
     [SetFillStyle (backgroundColor example_svc), FillRect 0 0 (width example_svc) (height example_svc)]
     @ renderTransitionFrame (Some (image' (?tl ! 0))) (Some (image' (?tl ! Suc 0)))
         (applyEasing ((3.5 - tr_startTime ?tro) / tr_duration ?tro) (tr_easing ?tro))
         (tr_type ?tro) (width example_svc) (height example_svc)"
    by (elim conjE)
  then have rf: "renderFrame example_svc 3.5 ?tl =
     [SetFillStyle ''#000000'', FillRect 0 0 1920 1080]
     @ renderTransitionFrame (Some (example_images ! 0)) (Some (example_images ! 1))
         (applyEasing 0.5 ''ease-in-out'') ''fade'' 1920 1080"
    unfolding img by (simp add: example_svc_def)
  from at_disp have d: "renderFrame_scan 1 ?tl 0 = Display (?tl ! 0)"
    by (elim conjE)
  from sc rf d show ?thesis
    by (intro conjI)
qed

text \<open>Claim C5.  \<^verbatim>\<open>renderFrame\<close> is a total function, and for a timeline built from a non-empty slide list it makes, after filling the background, exactly one render call, whatever the time is (so also on \<open>[0, totalDuration]\<close> with the overshoot): the steady display of an entry, or the transition from an entry to another, or the cover-fit drawing of the last entry's image.  The branches that draw nothing (an empty timeline) or that find no next entry do not occur.\<close>

theorem C5_frame_resolver_total:
  assumes ne: "slides \<noteq> []"
    and built: "buildTimeline slides images = (timeline, totalDuration)"
  shows "(\<exists>e. e \<in> set timeline \<and>
            renderFrame_scan time timeline 0 = Display e \<and>
            renderFrame svc time timeline =
              [SetFillStyle (backgroundColor svc), FillRect 0 0 (width svc) (height svc)]
              @ renderSlideWithKenBurns svc e time) \<or>
         (\<exists>e tro n. e \<in> set timeline \<and> n \<in> set timeline \<and> transitionOut e = Some tro \<and>
            renderFrame_scan time timeline 0 = Transition e tro n \<and>
            renderFrame svc time timeline =
              [SetFillStyle (backgroundColor svc), FillRect 0 0 (width svc) (height svc)]
              @ renderTransitionFrame (Some (image' e)) (Some (image' n))
                  (applyEasing ((time - tr_startTime tro) / (tr_endTime tro - tr_startTime tro))
                     (tr_easing tro))
                  (tr_type tro) (width svc) (height svc)) \<or>
         (timeline \<noteq> [] \<and>
            renderFrame_scan time timeline 0 = ShowLast (last timeline) \<and>
            renderFrame svc time timeline =
              [SetFillStyle (backgroundColor svc), FillRect 0 0 (width svc) (height svc)]
              @ drawImageCover svc (image' (last timeline)))"
proof -
  note parts = built_parts[OF built]
  from ne have tne: "timeline \<noteq> []" by (simp add: parts)
  define fb where "fb = ShowLast (last timeline)"
  from tne have scan: "renderFrame_scan time timeline 0 = scan_list time fb timeline"
    by (simp add: renderFrame_scan_0 fb_def)
  from scan_list_cases[of time fb timeline]
  consider (past) "scan_list time fb timeline = fb"
    | (disp) e where "e \<in> set timeline" "scan_list time fb timeline = Display e"
    | (nonext) e where "e \<in> set timeline" "transitionOut e \<noteq> None"
        "scan_list time fb timeline = TransitionNoNext e" "e = last timeline"
    | (trans) i tro where "Suc i < length timeline" "transitionOut (timeline ! i) = Some tro"
        "scan_list time fb timeline = Transition (timeline ! i) tro (timeline ! Suc i)"
    by blast
  then show ?thesis
  proof cases
    case past
    then have sc: "renderFrame_scan time timeline 0 = ShowLast (last timeline)"
      by (simp add: scan fb_def)
    from tne sc renderFrame_ShowLast[OF sc, of svc] show ?thesis
      by (intro disjI2 conjI)
  next
    case disp
    then have sc: "renderFrame_scan time timeline 0 = Display e"
      by (simp add: scan)
    from disp(1) sc renderFrame_Display[OF sc, of svc] show ?thesis
      by (intro disjI1 exI[of _ e] conjI)
  next
    case nonext
    from entries_from_last_no_transition[OF ne, of images 0 0] nonext(2,4)
    show ?thesis by (simp add: parts)
  next
    case trans
    then have sc: "renderFrame_scan time timeline 0 = Transition (timeline ! i) tro (timeline ! Suc i)"
      by (simp add: scan)
    from trans(1) have m: "timeline ! i \<in> set timeline" "timeline ! Suc i \<in> set timeline"
      by simp_all
    from m trans(2) sc renderFrame_Transition[OF sc, of svc] show ?thesis
      by (intro disjI2 disjI1 exI[of _ "timeline ! i"] exI[of _ tro] exI[of _ "timeline ! Suc i"] conjI)
  qed
qed

text \<open>The theorem of C5 at the example of the specification and the time 11 = \<^verbatim>\<open>totalDuration\<close>: the last image, cover-fit.\<close>

theorem C5_frame_resolver_total_witness:
  "renderFrame_scan 11 (fst (buildTimeline (example_slides ''linear'') example_images)) 0 =
     ShowLast (last (fst (buildTimeline (example_slides ''linear'') example_images))) \<and>
   renderFrame example_svc 11 (fst (buildTimeline (example_slides ''linear'') example_images)) =
     [SetFillStyle ''#000000'', FillRect 0 0 1920 1080, DrawImage (example_images ! 2) 0 0 1920 1080]"
proof -
  let ?slides = "example_slides ''linear''"
  let ?tl = "fst (buildTimeline ?slides example_images)"
  have ne: "?slides \<noteq> []"
    by (simp add: example_slides_def)
  have b: "buildTimeline ?slides example_images = (?tl, snd (buildTimeline ?slides example_images))"
    by simp
  have nd: "renderFrame_scan 11 ?tl 0 \<noteq> Display e" for e
    by (simp add: renderFrame_scan_0 buildTimeline_struct example_slides_def step_transitionOut
          step_cursor)
  have nt: "renderFrame_scan 11 ?tl 0 \<noteq> Transition e tro n" for e tro n
    by (simp add: renderFrame_scan_0 buildTimeline_struct example_slides_def step_transitionOut
          step_cursor)
  from C5_frame_resolver_total[OF ne b, of 11 example_svc] nd nt
  have "renderFrame_scan 11 ?tl 0 = ShowLast (last ?tl) \<and>
        renderFrame example_svc 11 ?tl =
          [SetFillStyle (backgroundColor example_svc),
           FillRect 0 0 (width example_svc) (height example_svc)]
          @ drawImageCover example_svc (image' (last ?tl))"
    by blast
  moreover have "image' (last ?tl) = example_images ! 2"
    by (simp add: buildTimeline_struct example_slides_def numeral_2_eq_2)
  moreover have "drawImageCover example_svc (example_images ! 2) =
      [DrawImage (example_images ! 2) 0 0 1920 1080]"
    by (simp add: drawImageCover_def example_svc_def example_images_def)
  ultimately show ?thesis
    by (simp add: example_svc_def)
qed

text \<open>Claim C6, where the code departs from it.  For a time at or after \<^verbatim>\<open>totalDuration\<close>, \<^verbatim>\<open>renderFrame\<close> draws the image of the last entry with \<^verbatim>\<open>drawImageCover\<close>, without pan/zoom (\<open>renderFrame_past_end\<close> above); that is the steady display of the last slide at progress 1 when this slide has no Ken Burns spec.  With one it is not: for a single slide of 3 s with a Ken Burns zoom from 1 to 1.2, at time 3 = \<^verbatim>\<open>totalDuration\<close> (frame index 90 of the render loop at 30 frames per second, one past the last index the encoder loop asks for) the frame is the plain cover-fit image, whereas the steady display of that slide at progress 1, which \<^verbatim>\<open>renderSlideWithKenBurns\<close> gives at that very time, scales by 1.2.\<close>

theorem C6_past_end_ignores_kenBurns:
  "snd (buildTimeline kenBurns_slides [example_images ! 0]) = 3 \<and>
   renderFrame example_svc 3 (fst (buildTimeline kenBurns_slides [example_images ! 0])) =
     [SetFillStyle ''#000000'', FillRect 0 0 1920 1080,
      DrawImage (example_images ! 0) 0 0 1920 1080] \<and>
   renderSlideWithKenBurns example_svc
       (last (fst (buildTimeline kenBurns_slides [example_images ! 0]))) 3 =
     [Save, Translate 960 540, Scale 1.2 1.2, Translate (- 960) (- 540),
      DrawImage (example_images ! 0) 0 0 1920 1080, Restore] \<and>
   kenBurnsFrame example_svc (example_images ! 0)
       \<lparr>startScale = 1, endScale = 1.2, startPosition = \<lparr>pos_x = 0, pos_y = 0\<rparr>,
         endPosition = \<lparr>pos_x = 0, pos_y = 0\<rparr>\<rparr> 1 =
     [Save, Translate 960 540, Scale 1.2 1.2, Translate (- 960) (- 540),
      DrawImage (example_images ! 0) 0 0 1920 1080, Restore] \<and>
   (case createRenderLoop example_svc example_load kenBurns_slides of
      Inl e \<Rightarrow> False
    | Inr (renderFrameFn, totalDuration, totalFrames) \<Rightarrow>
        totalDuration = 3 \<and> totalFrames = 90 \<and>
        renderFrameFn 90 =
          [SetFillStyle ''#000000'', FillRect 0 0 1920 1080,
           DrawImage (example_images ! 0) 0 0 1920 1080])"
proof -
  let ?img = "example_images ! 0"
  let ?tl = "fst (buildTimeline kenBurns_slides [?img])"
  have img: "?img = \<lparr>img_src = ''a'', img_width = 1920, img_height = 1080\<rparr>"
    by (simp add: example_images_def)
  have total: "snd (buildTimeline kenBurns_slides [?img]) = 3"
    by (simp add: buildTimeline_struct kenBurns_slides_def step_cursor)
  have cover: "drawImageCover example_svc ?img = [DrawImage ?img 0 0 1920 1080]"
    by (simp add: drawImageCover_def example_svc_def img)
  have sc: "renderFrame_scan 3 ?tl 0 = ShowLast (last ?tl)"
    by (simp add: renderFrame_scan_0 buildTimeline_struct kenBurns_slides_def step_transitionOut)
  have li: "image' (last ?tl) = ?img"
    by (simp add: buildTimeline_struct kenBurns_slides_def)
  have rf: "renderFrame example_svc 3 ?tl =
     [SetFillStyle ''#000000'', FillRect 0 0 1920 1080, DrawImage ?img 0 0 1920 1080]"
    using renderFrame_ShowLast[OF sc, of example_svc] cover
    by (simp add: li) (simp add: example_svc_def)
  have kb: "kenBurnsFrame example_svc ?img
       \<lparr>startScale = 1, endScale = 1.2, startPosition = \<lparr>pos_x = 0, pos_y = 0\<rparr>,
         endPosition = \<lparr>pos_x = 0, pos_y = 0\<rparr>\<rparr> 1 =
     [Save, Translate 960 540, Scale 1.2 1.2, Translate (- 960) (- 540),
      DrawImage ?img 0 0 1920 1080, Restore]"
    unfolding kenBurnsFrame_def Let_def cover
    by (simp add: example_svc_def)
  have sd: "renderSlideWithKenBurns example_svc (last ?tl) 3 =
     [Save, Translate 960 540, Scale 1.2 1.2, Translate (- 960) (- 540),
      DrawImage ?img 0 0 1920 1080, Restore]"
    unfolding kb[symmetric]
    by (simp add: renderSlideWithKenBurns_def buildTimeline_struct kenBurns_slides_def)
  have ld: "loadImages example_load kenBurns_slides = Inr [?img]"
    by (simp add: kenBurns_slides_def example_load_def img)
  define tl where "tl = ?tl"
  have bt: "buildTimeline kenBurns_slides [?img] = (tl, 3)"
    using total by (simp add: prod_eq_iff tl_def)
  have rf': "renderFrame \<lparr>width = 1920, height = 1080, fps = 30, backgroundColor = ''#000000''\<rparr> 3 tl =
     [SetFillStyle ''#000000'', FillRect 0 0 1920 1080, DrawImage ?img 0 0 1920 1080]"
    using rf by (simp add: tl_def example_svc_def)
  have loop: "(case createRenderLoop example_svc example_load kenBurns_slides of
      Inl e \<Rightarrow> False
    | Inr (renderFrameFn, totalDuration, totalFrames) \<Rightarrow>
        totalDuration = 3 \<and> totalFrames = 90 \<and>
        renderFrameFn 90 =
          [SetFillStyle ''#000000'', FillRect 0 0 1920 1080, DrawImage ?img 0 0 1920 1080])"
    by (simp add: createRenderLoop_def ld bt rf' example_svc_def)
  from total rf sd kb loop show ?thesis
    by (intro conjI)
qed

text \<open>Claim C7.  A transition configured on the last slide is ignored: the list ending in a slide with a transition and the same list with that transition absent give the same display and transition intervals and the same \<^verbatim>\<open>totalDuration\<close>, and the last entry has no \<^verbatim>\<open>transitionOut\<close>.\<close>

theorem C7_last_transition_ignored:
  "map entry_intervals (fst (buildTimeline (slides @ [sl\<lparr>transition := Some tr\<rparr>]) images)) =
     map entry_intervals (fst (buildTimeline (slides @ [sl\<lparr>transition := None\<rparr>]) images)) \<and>
   snd (buildTimeline (slides @ [sl\<lparr>transition := Some tr\<rparr>]) images) =
     snd (buildTimeline (slides @ [sl\<lparr>transition := None\<rparr>]) images) \<and>
   transitionOut (last (fst (buildTimeline (slides @ [sl\<lparr>transition := Some tr\<rparr>]) images))) = None"
  by (simp add: buildTimeline_struct entries_from_spec cursor_from_spec
        spec_timeline_last_transition[where x = "Some tr" and y = None]
        entries_from_last_no_transition)

text \<open>Claim C8.  For every real \<open>t\<close>, \<^verbatim>\<open>applyEasing\<close> works on the clamped value \<open>p = max 0 (min 1 t)\<close>, which lies in \<open>[0, 1]\<close>: linear gives \<open>p\<close>, ease-in gives \<open>p\<^sup>3\<close>, ease-out gives \<open>1 - (1 - p)\<^sup>3\<close>, ease-in-out gives \<open>4p\<^sup>3\<close> below one half and \<open>1 - (-2p + 2)\<^sup>3 / 2\<close> from one half on.  Every kind maps 0 to 0 and 1 to 1, and the two branches of ease-in-out agree at one half.\<close>

theorem C8_applyEasing:
  "applyEasing t ''linear'' = max 0 (min 1 t) \<and>
   applyEasing t ''ease-in'' = (max 0 (min 1 t)) ^ 3 \<and>
   applyEasing t ''ease-out'' = 1 - (1 - max 0 (min 1 t)) ^ 3 \<and>
   applyEasing t ''ease-in-out'' =
     (if max 0 (min 1 t) < 0.5 then 4 * (max 0 (min 1 t)) ^ 3
      else 1 - ((- 2 * max 0 (min 1 t) + 2) ^ 3) / 2) \<and>
   0 \<le> max 0 (min 1 t) \<and> max 0 (min 1 t) \<le> 1 \<and>
   applyEasing 0 ''linear'' = 0 \<and> applyEasing 1 ''linear'' = 1 \<and>
   applyEasing 0 ''ease-in'' = 0 \<and> applyEasing 1 ''ease-in'' = 1 \<and>
   applyEasing 0 ''ease-out'' = 0 \<and> applyEasing 1 ''ease-out'' = 1 \<and>
   applyEasing 0 ''ease-in-out'' = 0 \<and> applyEasing 1 ''ease-in-out'' = 1 \<and>
   4 * (0.5::real) ^ 3 = 1 - ((- 2 * 0.5 + 2) ^ 3) / 2 \<and>
   applyEasing 0.5 ''ease-in-out'' = 0.5"
proof -
  define p where "p = max 0 (min 1 t)"
  have gen: "applyEasing t ''linear'' = p"
    "applyEasing t ''ease-in'' = p ^ 3"
    "applyEasing t ''ease-out'' = 1 - (1 - p) ^ 3"
    "applyEasing t ''ease-in-out'' =
     (if p < 0.5 then 4 * p ^ 3 else 1 - ((- 2 * p + 2) ^ 3) / 2)"
    unfolding applyEasing_def Let_def p_def[symmetric]
    by (simp_all add: power3_eq_cube)
  have bnd: "applyEasing 0 ''linear'' = 0" "applyEasing 1 ''linear'' = 1"
    "applyEasing 0 ''ease-in'' = 0" "applyEasing 1 ''ease-in'' = 1"
    "applyEasing 0 ''ease-out'' = 0" "applyEasing 1 ''ease-out'' = 1"
    "applyEasing 0 ''ease-in-out'' = 0" "applyEasing 1 ''ease-in-out'' = 1"
    by (simp_all add: applyEasing_def)
  have mid: "4 * (0.5::real) ^ 3 = 1 - ((- 2 * 0.5 + 2) ^ 3) / 2"
    "applyEasing 0.5 ''ease-in-out'' = 0.5"
    by (simp_all add: applyEasing_def power3_eq_cube)
  have rng: "0 \<le> p" "p \<le> 1"
    by (simp_all add: p_def)
  from gen bnd mid rng show ?thesis
    unfolding p_def[symmetric] by (intro conjI)
qed



text \<open>Claim C10.  In a timeline built by \<^verbatim>\<open>buildTimeline\<close> (from any slide list), every entry with a \<^verbatim>\<open>transitionOut\<close> is followed by a further entry; hence \<^verbatim>\<open>renderFrame\<close> never leaves its scan through the branch for a missing next entry, at any time.\<close>

theorem C10_transition_has_next:
  assumes built: "buildTimeline slides images = (timeline, totalDuration)"
  shows "(\<forall>i<length timeline. transitionOut (timeline ! i) \<noteq> None \<longrightarrow> Suc i < length timeline) \<and>
         (\<forall>time e. renderFrame_scan time timeline 0 \<noteq> TransitionNoNext e)"
proof -
  note parts = built_parts[OF built]
  have a: "\<forall>i<length timeline. transitionOut (timeline ! i) \<noteq> None \<longrightarrow> Suc i < length timeline"
  proof (intro allI impI)
    fix i
    assume i: "i < length timeline" and t: "transitionOut (timeline ! i) \<noteq> None"
    then obtain tro where "transitionOut (timeline ! i) = Some tro" by blast
    with i entries_from_transitionOut[of i slides images 0 0 tro] show "Suc i < length timeline"
      by (simp add: parts)
  qed
  have b: "renderFrame_scan time timeline 0 \<noteq> TransitionNoNext e" for time e
  proof
    assume eq: "renderFrame_scan time timeline 0 = TransitionNoNext e"
    define fb where "fb = (if timeline = [] then Nothing else ShowLast (last timeline))"
    have fb: "fb \<noteq> TransitionNoNext e" by (simp add: fb_def)
    from eq have s: "scan_list time fb timeline = TransitionNoNext e"
      by (simp add: renderFrame_scan_0 fb_def)
    with scan_list_cases[of time fb timeline] fb
    have l: "e \<in> set timeline" "transitionOut e \<noteq> None" "e = last timeline"
      by auto
    then have "slides \<noteq> []" by (auto simp: parts)
    from entries_from_last_no_transition[OF this, of images 0 0] l show False
      by (simp add: parts)
  qed
  from a b show ?thesis by blast
qed

text \<open>The theorem of C10 at the example of the specification.\<close>

theorem C10_transition_has_next_witness:
  "Suc 0 < length (fst (buildTimeline (example_slides ''linear'') example_images)) \<and>
   renderFrame_scan 3.5 (fst (buildTimeline (example_slides ''linear'') example_images)) 0 \<noteq>
     TransitionNoNext (fst (buildTimeline (example_slides ''linear'') example_images) ! 0)"
proof -
  let ?tl = "fst (buildTimeline (example_slides ''linear'') example_images)"
  have t: "transitionOut (?tl ! 0) \<noteq> None" and l: "0 < length ?tl"
    by (simp_all add: buildTimeline_struct example_slides_def step_transitionOut)
  from C10_transition_has_next[OF prod.collapse[symmetric], of "example_slides ''linear''" example_images]
    t l show ?thesis by blast
qed

end
